theory Spec2Isabelle
  imports Complex_Main "HOL-Library.Word" "HOL-Library.Multiset"
begin

unbundle bit_operations_syntax

section \<open>Values, pointers and status codes\<close>

text \<open>
  The status codes of \<^verbatim>\<open>mkldnn_status_t\<close> that \<^verbatim>\<open>gemm.cpp\<close> returns.
\<close>

datatype mkldnn_status_t = mkldnn_success | mkldnn_invalid_arguments | mkldnn_unimplemented

text \<open>
  A C pointer argument is \<open>None\<close> when it is \<^verbatim>\<open>nullptr\<close> and \<open>Some v\<close> when it points
  to the value \<open>v\<close>. Data pointers (\<^verbatim>\<open>A\<close>, \<^verbatim>\<open>B\<close>, \<^verbatim>\<open>C\<close>, \<^verbatim>\<open>bias\<close>, \<^verbatim>\<open>co\<close>) point into
  a memory the dispatcher never reads; for them \<open>Some a\<close> is the address \<open>a\<close>.
\<close>

type_synonym 'a ptr = "'a option"
type_synonym addr = nat

text \<open>
  A C \<^verbatim>\<open>float\<close>. The dispatcher only ever compares one with zero (\<^verbatim>\<open>*beta != 0\<close>):
  both signed zeros are the real 0, an infinity or a NaN differs from 0.
\<close>

datatype c_float = Finite real | Infinity bool | NaN

fun float_ne_zero :: "c_float \<Rightarrow> bool" where
  "float_ne_zero (Finite r) = (r \<noteq> 0)"
| "float_ne_zero (Infinity _) = True"
| "float_ne_zero NaN = True"

text \<open>
  Modelled from the spec: the helpers \<^verbatim>\<open>utils::any_null\<close>, \<^verbatim>\<open>utils::one_of\<close>,
  \<^verbatim>\<open>utils::everyone_is\<close> and \<^verbatim>\<open>nstl::max\<close> of \<^verbatim>\<open>utils.hpp\<close> and \<^verbatim>\<open>nstl.hpp\<close>, which are
  not among the sources: "any null required pointer", "one of the recognized symbols",
  "both zero-points are exactly zero", and the maximum of two integers. The pointers
  handed to \<^verbatim>\<open>any_null\<close> have different types, so the model takes their null tests.
\<close>

definition any_null :: "bool list \<Rightarrow> bool" where
  "any_null is_null = (True \<in> set is_null)"

definition one_of :: "'a \<Rightarrow> 'a list \<Rightarrow> bool" where
  "one_of x vs = (x \<in> set vs)"

definition everyone_is :: "'a \<Rightarrow> 'a list \<Rightarrow> bool" where
  "everyone_is v xs = list_all (\<lambda>x. x = v) xs"

text \<open>
  Modelled from the spec: the macro \<^verbatim>\<open>IMPLICATION(cause, effect)\<close> of \<^verbatim>\<open>utils.hpp\<close>
  (not among the sources), the material implication written with \<^verbatim>\<open>||\<close>.
\<close>

definition IMPLICATION :: "bool \<Rightarrow> bool \<Rightarrow> bool" where
  "IMPLICATION cause effect = (\<not> cause \<or> effect)"

definition nstl_max :: "int \<Rightarrow> int \<Rightarrow> int" where
  "nstl_max a b = (if a < b then b else a)"

definition is_null :: "'a ptr \<Rightarrow> bool" where
  "is_null p = (p = None)"

section \<open>Validation of a GEMM request (gemm.cpp)\<close>

text \<open>
  \<^verbatim>\<open>check_gemm_input\<close>, lines 48 to 77. The \<^verbatim>\<open>int\<close> arguments are only compared, never
  added or multiplied, so they are integers here. A pointer is dereferenced only after
  the null test, where \<open>the\<close> reads its value.
\<close>

definition check_gemm_input ::
  "char ptr \<Rightarrow> char ptr \<Rightarrow> int ptr \<Rightarrow> int ptr \<Rightarrow> int ptr \<Rightarrow> int ptr \<Rightarrow> int ptr \<Rightarrow> int ptr
   \<Rightarrow> c_float ptr \<Rightarrow> c_float ptr \<Rightarrow> bool \<Rightarrow> mkldnn_status_t" where
  "check_gemm_input transa transb M N K lda ldb ldc alpha beta with_bias =
     (if any_null [is_null transa, is_null transb, is_null M, is_null N, is_null K,
                   is_null lda, is_null ldb, is_null ldc, is_null alpha, is_null beta]
      then mkldnn_invalid_arguments
      else if with_bias \<and> float_ne_zero (the beta) then mkldnn_unimplemented
      else
        let consistency =
              (one_of (the transa) [CHR ''T'', CHR ''t'', CHR ''N'', CHR ''n'']
               \<and> one_of (the transb) [CHR ''T'', CHR ''t'', CHR ''N'', CHR ''n'']
               \<and> the M \<ge> 0 \<and> the N \<ge> 0 \<and> the K \<ge> 0)
        in if \<not> consistency then mkldnn_invalid_arguments
        else
          let isTransA = one_of (the transa) [CHR ''T'', CHR ''t''];
              isTransB = one_of (the transb) [CHR ''T'', CHR ''t''];
              nrowA = (if isTransA then the K else the M);
              nrowB = (if isTransB then the N else the K);
              consistency' =
                (the lda \<ge> nstl_max 1 nrowA \<and> the ldb \<ge> nstl_max 1 nrowB
                 \<and> the ldc \<ge> nstl_max 1 (the M))
          in if \<not> consistency' then mkldnn_invalid_arguments else mkldnn_success)"

text \<open>\<^verbatim>\<open>check_gemm_x8x8x32_input\<close>, lines 79 to 90.\<close>

definition check_gemm_x8x8x32_input ::
  "char ptr \<Rightarrow> char ptr \<Rightarrow> char ptr \<Rightarrow> int ptr \<Rightarrow> int ptr \<Rightarrow> int ptr \<Rightarrow> int ptr \<Rightarrow> int ptr
   \<Rightarrow> int ptr \<Rightarrow> c_float ptr \<Rightarrow> c_float ptr \<Rightarrow> bool \<Rightarrow> mkldnn_status_t" where
  "check_gemm_x8x8x32_input offsetc transa transb M N K lda ldb ldc alpha beta with_bias =
     (if offsetc = None then mkldnn_invalid_arguments
      else if \<not> one_of (the offsetc)
                 [CHR ''F'', CHR ''f'', CHR ''C'', CHR ''c'', CHR ''R'', CHR ''r'']
      then mkldnn_invalid_arguments
      else check_gemm_input transa transb M N K lda ldb ldc alpha beta with_bias)"


section \<open>The parallel executor (mkldnn_thread_parallel_nd.hpp)\<close>

text \<open>
  Modelled from the spec: \<^verbatim>\<open>balance211\<close> of \<^verbatim>\<open>mkldnn_thread.hpp\<close>, which is not among
  the sources. "Splits total units into workerCount contiguous, near-equal ranges. The
  remainder total mod workerCount is distributed as one extra unit each to the
  lowest-indexed remainder workers." The result is the half-open range \<open>(start, end)\<close>
  of worker \<open>tid\<close>; the ranges follow each other in the order of the worker ids.
\<close>

definition balance211 :: "nat \<Rightarrow> nat \<Rightarrow> nat \<Rightarrow> nat \<times> nat" where
  "balance211 n team tid =
     (let q = n div team;
          r = n mod team;
          n_start = tid * q + min tid r;
          n_my = q + (if tid < r then 1 else 0)
      in (n_start, n_start + n_my))"

text \<open>
  Modelled from the spec: \<^verbatim>\<open>utils::nd_iterator_init\<close> and \<^verbatim>\<open>utils::nd_iterator_step\<close> of
  \<^verbatim>\<open>utils.hpp\<close>, which is not among the sources. The first "converts the range's starting
  linear index into an N-tuple coordinate by mixed-radix decomposition against extents
  (innermost dimension varies fastest)": it returns what is left of the index and the
  coordinates. The second "advances the coordinate incrementally": an odometer step from
  the innermost dimension outwards, which returns whether the outermost digit wrapped,
  and the new coordinates. The variadic argument pack \<^verbatim>\<open>d0, D0, d1, D1, ...\<close> is the list
  of coordinates and the list of extents.
\<close>

fun nd_iterator_init :: "nat \<Rightarrow> nat list \<Rightarrow> nat \<times> nat list" where
  "nd_iterator_init start [] = (start, [])"
| "nd_iterator_init start (X # Xs) =
     (case nd_iterator_init start Xs of
        (start', xs) \<Rightarrow> (start' div X, (start' mod X) # xs))"

fun nd_iterator_step :: "nat list \<Rightarrow> nat list \<Rightarrow> bool \<times> nat list" where
  "nd_iterator_step (x # xs) (X # Xs) =
     (case nd_iterator_step xs Xs of
        (carry, xs') \<Rightarrow>
          if carry then (let x' = (x + 1) mod X in (x' = 0, x' # xs'))
          else (False, x # xs'))"
| "nd_iterator_step xs Xs = (True, [])"

text \<open>
  \<^verbatim>\<open>for_nd\<close> with one extent, lines 36 to 41. The callback \<open>f\<close> has effects: it is a
  function on a state \<open>'s\<close>, and the loop threads the state through the calls.
\<close>

function for_nd1_loop :: "nat \<Rightarrow> nat \<Rightarrow> (nat \<Rightarrow> 's \<Rightarrow> 's) \<Rightarrow> 's \<Rightarrow> 's" where
  "for_nd1_loop d0 end' f s =
     (if d0 < end' then for_nd1_loop (d0 + 1) end' f (f d0 s) else s)"
  by pat_completeness auto
termination
  by (relation "measure (\<lambda>(d0, end', f, s). end' - d0)") auto

declare for_nd1_loop.simps [simp del]

definition for_nd1 :: "nat \<Rightarrow> nat \<Rightarrow> nat \<Rightarrow> (nat \<Rightarrow> 's \<Rightarrow> 's) \<Rightarrow> 's \<Rightarrow> 's" where
  "for_nd1 ithr nthr D0 f s =
     (case balance211 D0 nthr ithr of (d0, end') \<Rightarrow> for_nd1_loop d0 end' f s)"

text \<open>
  \<^verbatim>\<open>for_nd\<close> with two to six extents, lines 43 to 123: five overloads with the same
  body, one per number of extents. Here they are one function on the list of extents
  \<open>[D0, D1, ...]\<close>, and \<open>f\<close> receives the list of coordinates \<open>[d0, d1, ...]\<close>.
  \<^verbatim>\<open>work_amount\<close> is the product \<^verbatim>\<open>(size_t)D0 * D1 * ...\<close>, computed in the 64-bit
  unsigned type \<^verbatim>\<open>size_t\<close>, where a product wraps around.
\<close>

definition size_t_mul :: "nat \<Rightarrow> nat \<Rightarrow> nat" where
  "size_t_mul a b = (a * b) mod 2 ^ 64"

definition work_amount :: "nat list \<Rightarrow> nat" where
  "work_amount Ds = foldl size_t_mul 1 Ds"

function for_nd_loop ::
  "nat \<Rightarrow> nat \<Rightarrow> nat list \<Rightarrow> nat list \<Rightarrow> (nat list \<Rightarrow> 's \<Rightarrow> 's) \<Rightarrow> 's \<Rightarrow> 's" where
  "for_nd_loop iwork end' ds Ds f s =
     (if iwork < end'
      then for_nd_loop (iwork + 1) end' (snd (nd_iterator_step ds Ds)) Ds f (f ds s)
      else s)"
  by pat_completeness auto
termination
  by (relation "measure (\<lambda>(iwork, end', ds, Ds, f, s). end' - iwork)") auto

declare for_nd_loop.simps [simp del]

definition for_nd ::
  "nat \<Rightarrow> nat \<Rightarrow> nat list \<Rightarrow> (nat list \<Rightarrow> 's \<Rightarrow> 's) \<Rightarrow> 's \<Rightarrow> 's" where
  "for_nd ithr nthr Ds f s =
     (if work_amount Ds = 0 then s
      else case balance211 (work_amount Ds) nthr ithr of
        (start, end') \<Rightarrow>
          for_nd_loop start end' (snd (nd_iterator_init start Ds)) Ds f s)"

text \<open>
  \<^verbatim>\<open>parallel_nd\<close> with one extent, lines 127 to 132: every thread of the team runs
  \<^verbatim>\<open>for_nd\<close> with its own id. The team of \<open>nthr\<close> threads
  (\<^verbatim>\<open>mkldnn_get_num_threads()\<close>) is run here one thread after the other, in the order of
  the ids.
\<close>

definition parallel_nd1 :: "nat \<Rightarrow> nat \<Rightarrow> (nat \<Rightarrow> 's \<Rightarrow> 's) \<Rightarrow> 's \<Rightarrow> 's" where
  "parallel_nd1 nthr D0 f s = fold (\<lambda>ithr. for_nd1 ithr nthr D0 f) [0..<nthr] s"

text \<open>
  The coordinates at which a worker calls \<open>f\<close>, in the order of the calls: the run of
  \<^verbatim>\<open>for_nd\<close> with a callback that appends its arguments to a log.
\<close>

definition for_nd1_visits :: "nat \<Rightarrow> nat \<Rightarrow> nat \<Rightarrow> nat list" where
  "for_nd1_visits ithr nthr D0 = for_nd1 ithr nthr D0 (\<lambda>d0 log. log @ [d0]) []"

definition for_nd_visits :: "nat \<Rightarrow> nat \<Rightarrow> nat list \<Rightarrow> nat list list" where
  "for_nd_visits ithr nthr Ds = for_nd ithr nthr Ds (\<lambda>ds log. log @ [ds]) []"

section \<open>The GEMM dispatcher (gemm.cpp)\<close>

text \<open>
  What the build and the processor decide: the preprocessor symbols \<^verbatim>\<open>USE_CBLAS\<close>,
  \<^verbatim>\<open>USE_MKL_IGEMM\<close> and \<^verbatim>\<open>__ARM_ARCH\<close>, and the capability query \<^verbatim>\<open>mayiuse\<close>, a
  parameter of every entry point here.
\<close>

record build_config =
  USE_CBLAS :: bool
  USE_MKL_IGEMM :: bool
  ARM_ARCH :: bool

datatype cpu_isa_t = avx | avx512_common | avx512_core | avx512_mic

text \<open>
  The kernels the dispatcher calls are not its own code: the vendor library
  (\<^verbatim>\<open>cblas_sgemm\<close>, \<^verbatim>\<open>cblas_saxpy\<close>, \<^verbatim>\<open>cblas_gemm_s8u8s32\<close>), the generated kernels
  (\<^verbatim>\<open>jit_avx512_common_gemm_f32\<close>, \<^verbatim>\<open>gemm_driver\<close>), the simplified kernel
  (\<^verbatim>\<open>simple_gemm_s8s8s32\<close>) and the reference kernels (\<^verbatim>\<open>ref_gemm\<close>,
  \<^verbatim>\<open>ref_gemm_s8x8s32\<close>). A kernel receives the argument list and the memory, and returns a
  status and the memory it leaves. \<^verbatim>\<open>cblas_saxpy\<close> carries the offset of the column of
  \<^verbatim>\<open>C\<close> it adds the bias to.
\<close>

datatype backend =
    Cblas_sgemm | Cblas_saxpy int | Cblas_gemm_s8u8s32
  | Jit_avx512_common_gemm_f32 | Gemm_driver | Simple_gemm_s8s8s32
  | Ref_gemm | Ref_gemm_s8x8s32

record gemm_args =
  a_transa :: "char ptr"
  a_transb :: "char ptr"
  a_offsetc :: "char ptr"
  a_M :: "int ptr"
  a_N :: "int ptr"
  a_K :: "int ptr"
  a_alpha :: "c_float ptr"
  a_A :: "addr ptr"
  a_lda :: "int ptr"
  a_ao :: "int ptr"
  a_B :: "addr ptr"
  a_ldb :: "int ptr"
  a_bo :: "int ptr"
  a_beta :: "c_float ptr"
  a_C :: "addr ptr"
  a_ldc :: "int ptr"
  a_co :: "addr ptr"
  a_force_jit_nocopy_gemm :: bool

type_synonym 'm kernels = "backend \<Rightarrow> gemm_args \<Rightarrow> 'm \<Rightarrow> mkldnn_status_t \<times> 'm"

text \<open>
  The state a call of the dispatcher works on: the memory (the buffer \<^verbatim>\<open>C\<close> lives in
  it) and the log of the kernels called so far.
\<close>

record 'm world =
  mem :: 'm
  calls :: "backend list"

definition invoke ::
  "'m kernels \<Rightarrow> backend \<Rightarrow> gemm_args \<Rightarrow> 'm world \<Rightarrow> mkldnn_status_t \<times> 'm world" where
  "invoke ext b args w =
     (case ext b args (mem w) of
        (st, m') \<Rightarrow> (st, \<lparr>mem = m', calls = calls w @ [b]\<rparr>))"

text \<open>The kernels a run of an integer entry point has called, when the run is defined.\<close>

definition kernels_called :: "(mkldnn_status_t \<times> 'm world) option \<Rightarrow> backend list option" where
  "kernels_called r = map_option (\<lambda>r. calls (snd r)) r"

text \<open>
  \<^verbatim>\<open>extended_sgemm\<close>, lines 92 to 140. \<open>nthr\<close> is the size of the thread team that
  \<^verbatim>\<open>parallel_nd\<close> uses for the bias pass of the vendor route.
\<close>

definition extended_sgemm ::
  "build_config \<Rightarrow> (cpu_isa_t \<Rightarrow> bool) \<Rightarrow> nat \<Rightarrow> 'm kernels
   \<Rightarrow> char ptr \<Rightarrow> char ptr \<Rightarrow> int ptr \<Rightarrow> int ptr \<Rightarrow> int ptr \<Rightarrow> c_float ptr
   \<Rightarrow> addr ptr \<Rightarrow> int ptr \<Rightarrow> addr ptr \<Rightarrow> int ptr \<Rightarrow> c_float ptr \<Rightarrow> addr ptr \<Rightarrow> int ptr
   \<Rightarrow> addr ptr \<Rightarrow> bool \<Rightarrow> 'm world \<Rightarrow> mkldnn_status_t \<times> 'm world" where
  "extended_sgemm cfg mayiuse nthr ext transa transb M N K alpha A lda B ldb beta C ldc
       bias force_jit_nocopy_gemm w =
     (let status = check_gemm_input transa transb M N K lda ldb ldc alpha beta (bias \<noteq> None);
          args = \<lparr>a_transa = transa, a_transb = transb, a_offsetc = None,
                  a_M = M, a_N = N, a_K = K, a_alpha = alpha, a_A = A, a_lda = lda,
                  a_ao = None, a_B = B, a_ldb = ldb, a_bo = None, a_beta = beta,
                  a_C = C, a_ldc = ldc, a_co = bias,
                  a_force_jit_nocopy_gemm = force_jit_nocopy_gemm\<rparr>
      in if status \<noteq> mkldnn_success then (status, w)
         else if USE_CBLAS cfg \<and> \<not> force_jit_nocopy_gemm then
           (let w1 = snd (invoke ext Cblas_sgemm args w);
                w2 = (if bias \<noteq> None
                      then parallel_nd1 nthr (nat (the N))
                             (\<lambda>n w'. snd (invoke ext (Cblas_saxpy (int n * the ldc)) args w'))
                             w1
                      else w1)
            in (mkldnn_success, w2))
         else if \<not> ARM_ARCH cfg \<and> mayiuse avx512_mic
           then invoke ext Jit_avx512_common_gemm_f32 args w
         else if \<not> ARM_ARCH cfg \<and> mayiuse avx
           then invoke ext Gemm_driver
                  (args\<lparr>a_offsetc := (if bias \<noteq> None then Some CHR ''C'' else None)\<rparr>) w
         else invoke ext Ref_gemm args w)"

text \<open>
  \<^verbatim>\<open>try_cblas_gemm_s8u8s32\<close>, lines 143 to 166. In a build with the vendor integer GEMM it
  reads \<^verbatim>\<open>*ao\<close> and \<^verbatim>\<open>*bo\<close>, which no validation has tested: the result is \<open>None\<close>
  (undefined behaviour) when one of them is null.
\<close>

definition try_cblas_gemm_s8u8s32 ::
  "build_config \<Rightarrow> 'm kernels \<Rightarrow> gemm_args \<Rightarrow> 'm world
   \<Rightarrow> (mkldnn_status_t \<times> 'm world) option" where
  "try_cblas_gemm_s8u8s32 cfg ext args w =
     (if USE_MKL_IGEMM cfg then
        (if a_ao args = None \<or> a_bo args = None then None
         else Some (mkldnn_success, snd (invoke ext Cblas_gemm_s8u8s32 args w)))
      else Some (mkldnn_unimplemented, w))"

text \<open>
  \<^verbatim>\<open>gemm_s8x8s32\<close> with \<^verbatim>\<open>uint8_t\<close> B, lines 168 to 195.
\<close>

definition gemm_s8x8s32_u8 ::
  "build_config \<Rightarrow> (cpu_isa_t \<Rightarrow> bool) \<Rightarrow> 'm kernels
   \<Rightarrow> char ptr \<Rightarrow> char ptr \<Rightarrow> char ptr \<Rightarrow> int ptr \<Rightarrow> int ptr \<Rightarrow> int ptr \<Rightarrow> c_float ptr
   \<Rightarrow> addr ptr \<Rightarrow> int ptr \<Rightarrow> int ptr \<Rightarrow> addr ptr \<Rightarrow> int ptr \<Rightarrow> int ptr \<Rightarrow> c_float ptr
   \<Rightarrow> addr ptr \<Rightarrow> int ptr \<Rightarrow> addr ptr \<Rightarrow> 'm world
   \<Rightarrow> (mkldnn_status_t \<times> 'm world) option" where
  "gemm_s8x8s32_u8 cfg mayiuse ext transa transb offsetc M N K alpha A LDA ao B LDB bo beta
       C LDC co w =
     (let status = check_gemm_x8x8x32_input offsetc transa transb M N K LDA LDB LDC
                     alpha beta False;
          args = \<lparr>a_transa = transa, a_transb = transb, a_offsetc = offsetc,
                  a_M = M, a_N = N, a_K = K, a_alpha = alpha, a_A = A, a_lda = LDA,
                  a_ao = ao, a_B = B, a_ldb = LDB, a_bo = bo, a_beta = beta,
                  a_C = C, a_ldc = LDC, a_co = co, a_force_jit_nocopy_gemm = False\<rparr>
      in if status \<noteq> mkldnn_success then Some (status, w)
         else if the M = 0 \<or> the N = 0 \<or> the K = 0 then Some (mkldnn_success, w)
         else case try_cblas_gemm_s8u8s32 cfg ext args w of
           None \<Rightarrow> None
         | Some (status', w') \<Rightarrow>
             if status' = mkldnn_success then Some (status', w')
             else if mayiuse avx512_core then Some (invoke ext Gemm_driver args w')
             else Some (invoke ext Ref_gemm_s8x8s32 args w'))"

text \<open>
  The product \<^verbatim>\<open>(*M) * (*N)\<close> of two \<^verbatim>\<open>int\<close>: \<open>None\<close> (undefined behaviour) when it is
  outside the 32-bit signed range.
\<close>

definition INT_MAX :: int where
  "INT_MAX = 2147483647"

definition c_int_mul :: "int \<Rightarrow> int \<Rightarrow> int option" where
  "c_int_mul a b = (if - INT_MAX - 1 \<le> a * b \<and> a * b \<le> INT_MAX then Some (a * b) else None)"

text \<open>
  \<^verbatim>\<open>gemm_s8x8s32\<close> with \<^verbatim>\<open>int8_t\<close> B, lines 197 to 230. \<^verbatim>\<open>use_jit\<close> multiplies only when
  \<^verbatim>\<open>mayiuse(avx512_core)\<close> holds (\<^verbatim>\<open>&&\<close> evaluates its right side only then);
  \<^verbatim>\<open>use_s8u8\<close> reads \<^verbatim>\<open>*ao\<close> and \<^verbatim>\<open>*bo\<close> on every path.
\<close>

definition gemm_s8x8s32_s8 ::
  "build_config \<Rightarrow> (cpu_isa_t \<Rightarrow> bool) \<Rightarrow> 'm kernels
   \<Rightarrow> char ptr \<Rightarrow> char ptr \<Rightarrow> char ptr \<Rightarrow> int ptr \<Rightarrow> int ptr \<Rightarrow> int ptr \<Rightarrow> c_float ptr
   \<Rightarrow> addr ptr \<Rightarrow> int ptr \<Rightarrow> int ptr \<Rightarrow> addr ptr \<Rightarrow> int ptr \<Rightarrow> int ptr \<Rightarrow> c_float ptr
   \<Rightarrow> addr ptr \<Rightarrow> int ptr \<Rightarrow> addr ptr \<Rightarrow> 'm world
   \<Rightarrow> (mkldnn_status_t \<times> 'm world) option" where
  "gemm_s8x8s32_s8 cfg mayiuse ext transa transb offsetc M N K alpha A LDA ao B LDB bo beta
       C LDC co w =
     (let status = check_gemm_x8x8x32_input offsetc transa transb M N K LDA LDB LDC
                     alpha beta False;
          args = \<lparr>a_transa = transa, a_transb = transb, a_offsetc = offsetc,
                  a_M = M, a_N = N, a_K = K, a_alpha = alpha, a_A = A, a_lda = LDA,
                  a_ao = ao, a_B = B, a_ldb = LDB, a_bo = bo, a_beta = beta,
                  a_C = C, a_ldc = LDC, a_co = co, a_force_jit_nocopy_gemm = False\<rparr>
      in if status \<noteq> mkldnn_success then Some (status, w)
         else if the M = 0 \<or> the N = 0 \<or> the K = 0 then Some (mkldnn_success, w)
         else
           case (if mayiuse avx512_core
                 then map_option (\<lambda>mn. mn > 1) (c_int_mul (the M) (the N))
                 else Some False) of
             None \<Rightarrow> None
           | Some use_jit \<Rightarrow>
               (case (ao, bo) of
                  (Some ao_v, Some bo_v) \<Rightarrow>
                    (let use_s8u8 =
                           (everyone_is 0 [ao_v, bo_v]
                            \<and> IMPLICATION (\<not> USE_MKL_IGEMM cfg) (mayiuse avx512_core))
                     in if use_jit then Some (invoke ext Gemm_driver args w)
                        else if use_s8u8 then Some (invoke ext Simple_gemm_s8s8s32 args w)
                        else Some (invoke ext Ref_gemm_s8x8s32 args w))
                | _ \<Rightarrow> None))"

text \<open>
  The public entry points, lines 239 to 288. \<^verbatim>\<open>mkldnn_sgemm\<close> calls \<^verbatim>\<open>extended_sgemm\<close>
  without its last two arguments. Modelled from the spec: their defaults, declared in
  \<^verbatim>\<open>gemm.hpp\<close> (not among the sources): the bias is optional, so absent (null), and the
  no-copy path is not forced.
\<close>

definition mkldnn_sgemm ::
  "build_config \<Rightarrow> (cpu_isa_t \<Rightarrow> bool) \<Rightarrow> nat \<Rightarrow> 'm kernels
   \<Rightarrow> char ptr \<Rightarrow> char ptr \<Rightarrow> int ptr \<Rightarrow> int ptr \<Rightarrow> int ptr \<Rightarrow> c_float ptr
   \<Rightarrow> addr ptr \<Rightarrow> int ptr \<Rightarrow> addr ptr \<Rightarrow> int ptr \<Rightarrow> c_float ptr \<Rightarrow> addr ptr \<Rightarrow> int ptr
   \<Rightarrow> 'm world \<Rightarrow> mkldnn_status_t \<times> 'm world" where
  "mkldnn_sgemm cfg mayiuse nthr ext transa transb M N K alpha A lda B ldb beta C ldc w =
     extended_sgemm cfg mayiuse nthr ext transa transb M N K alpha A lda B ldb beta C ldc
       None False w"

definition mkldnn_gemm_s8u8s32 ::
  "build_config \<Rightarrow> (cpu_isa_t \<Rightarrow> bool) \<Rightarrow> 'm kernels
   \<Rightarrow> char ptr \<Rightarrow> char ptr \<Rightarrow> char ptr \<Rightarrow> int ptr \<Rightarrow> int ptr \<Rightarrow> int ptr \<Rightarrow> c_float ptr
   \<Rightarrow> addr ptr \<Rightarrow> int ptr \<Rightarrow> int ptr \<Rightarrow> addr ptr \<Rightarrow> int ptr \<Rightarrow> int ptr \<Rightarrow> c_float ptr
   \<Rightarrow> addr ptr \<Rightarrow> int ptr \<Rightarrow> addr ptr \<Rightarrow> 'm world
   \<Rightarrow> (mkldnn_status_t \<times> 'm world) option" where
  "mkldnn_gemm_s8u8s32 cfg mayiuse ext transa transb offsetc M N K alpha A lda ao B ldb bo
       beta C ldc co w =
     gemm_s8x8s32_u8 cfg mayiuse ext transa transb offsetc M N K alpha A lda ao B ldb bo
       beta C ldc co w"

definition mkldnn_gemm_s8s8s32 ::
  "build_config \<Rightarrow> (cpu_isa_t \<Rightarrow> bool) \<Rightarrow> 'm kernels
   \<Rightarrow> char ptr \<Rightarrow> char ptr \<Rightarrow> char ptr \<Rightarrow> int ptr \<Rightarrow> int ptr \<Rightarrow> int ptr \<Rightarrow> c_float ptr
   \<Rightarrow> addr ptr \<Rightarrow> int ptr \<Rightarrow> int ptr \<Rightarrow> addr ptr \<Rightarrow> int ptr \<Rightarrow> int ptr \<Rightarrow> c_float ptr
   \<Rightarrow> addr ptr \<Rightarrow> int ptr \<Rightarrow> addr ptr \<Rightarrow> 'm world
   \<Rightarrow> (mkldnn_status_t \<times> 'm world) option" where
  "mkldnn_gemm_s8s8s32 cfg mayiuse ext transa transb offsetc M N K alpha A lda ao B ldb bo
       beta C ldc co w =
     gemm_s8x8s32_s8 cfg mayiuse ext transa transb offsetc M N K alpha A lda ao B ldb bo
       beta C ldc co w"

definition mkldnn_gemm_bf16bf16f32 ::
  "(cpu_isa_t \<Rightarrow> bool) \<Rightarrow> 'm kernels
   \<Rightarrow> char ptr \<Rightarrow> char ptr \<Rightarrow> int ptr \<Rightarrow> int ptr \<Rightarrow> int ptr \<Rightarrow> c_float ptr
   \<Rightarrow> addr ptr \<Rightarrow> int ptr \<Rightarrow> addr ptr \<Rightarrow> int ptr \<Rightarrow> c_float ptr \<Rightarrow> addr ptr \<Rightarrow> int ptr
   \<Rightarrow> 'm world \<Rightarrow> mkldnn_status_t \<times> 'm world" where
  "mkldnn_gemm_bf16bf16f32 mayiuse ext transa transb M N K alpha A lda B ldb beta C ldc w =
     (let status = check_gemm_input transa transb M N K lda ldb ldc alpha beta False;
          args = \<lparr>a_transa = transa, a_transb = transb, a_offsetc = None,
                  a_M = M, a_N = N, a_K = K, a_alpha = alpha, a_A = A, a_lda = lda,
                  a_ao = None, a_B = B, a_ldb = ldb, a_bo = None, a_beta = beta,
                  a_C = C, a_ldc = ldc, a_co = None, a_force_jit_nocopy_gemm = False\<rparr>
      in if status \<noteq> mkldnn_success then (status, w)
         else if mayiuse avx512_core then invoke ext Gemm_driver args w
         else (mkldnn_unimplemented, w))"


section \<open>The kernel emitter (jit_generator.hpp)\<close>

text \<open>
  The 64-bit general-purpose registers (\<^verbatim>\<open>Xbyak::Reg64\<close>) and a register file. The
  generator appends instructions to its code buffer; an emitting function returns the
  instructions it appends. The instructions below are the ones \<^verbatim>\<open>safe_add\<close>,
  \<^verbatim>\<open>safe_sub\<close>, \<^verbatim>\<open>make_safe_addr\<close> and \<^verbatim>\<open>preamble\<close> emit, with the meaning the x86-64
  architecture gives them on the register file: \<^verbatim>\<open>mov r64, imm64\<close>,
  \<^verbatim>\<open>add/sub r64, r64\<close> and \<^verbatim>\<open>add/sub r64, imm32\<close>, whose immediate is sign-extended
  to 64 bits.
\<close>

datatype Reg64 =
    RAX | RCX | RDX | RBX | RSP | RBP | RSI | RDI
  | R8 | R9 | R10 | R11 | R12 | R13 | R14 | R15

type_synonym u64 = "64 word"
type_synonym regfile = "Reg64 \<Rightarrow> u64"

datatype instr =
    Mov_imm Reg64 u64
  | Add_reg Reg64 Reg64
  | Add_imm Reg64 "32 word"
  | Sub_reg Reg64 Reg64
  | Sub_imm Reg64 "32 word"

fun step :: "instr \<Rightarrow> regfile \<Rightarrow> regfile" where
  "step (Mov_imm r v) s = s(r := v)"
| "step (Add_reg d r) s = s(d := s d + s r)"
| "step (Add_imm d i) s = s(d := s d + scast i)"
| "step (Sub_reg d r) s = s(d := s d - s r)"
| "step (Sub_imm d i) s = s(d := s d - scast i)"

definition exec :: "instr list \<Rightarrow> regfile \<Rightarrow> regfile" where
  "exec code s = fold step code s"

text \<open>
  An address operand (\<^verbatim>\<open>Xbyak::Address\<close> over a \<^verbatim>\<open>RegExp\<close>): base register, optional
  index register with its scale, and displacement, which \<^verbatim>\<open>RegExp\<close> keeps as a
  \<^verbatim>\<open>size_t\<close>; the operand size in bits (0 for \<^verbatim>\<open>ptr\<close>, 512 for \<^verbatim>\<open>zword\<close>) and the
  broadcast flag. The x86-64 encoding of an address operand has room for a displacement of
  32 bits, which the processor sign-extends: the effective address is
  \<open>base + index * scale + disp32\<close> in 64-bit arithmetic, \<open>disp32\<close> being the low 32 bits
  of the displacement, sign-extended. So \<^verbatim>\<open>[base + offt]\<close> denotes \<open>base + offt\<close> only when
  \<open>offt\<close> fits a signed 32-bit number.
\<close>

record Address =
  ad_base :: Reg64
  ad_index :: "Reg64 option"
  ad_scale :: nat
  ad_disp :: u64
  ad_bit :: nat
  ad_broadcast :: bool

definition effective_address :: "Address \<Rightarrow> regfile \<Rightarrow> u64" where
  "effective_address a s =
     s (ad_base a)
     + (case ad_index a of None \<Rightarrow> 0 | Some r \<Rightarrow> s r * of_nat (ad_scale a))
     + scast (ucast (ad_disp a) :: 32 word)"

text \<open>The constants of \<^verbatim>\<open>jit_generator\<close>, lines 271 and 272.\<close>

definition EVEX_max_8b_offt :: int where
  "EVEX_max_8b_offt = 0x200"

definition reg_EVEX_max_8b_offt :: Reg64 where
  "reg_EVEX_max_8b_offt = RBP"

text \<open>
  The end of \<^verbatim>\<open>preamble\<close>, lines 337 to 339: the instruction that loads
  \<^verbatim>\<open>reg_EVEX_max_8b_offt\<close>. The register saves that \<^verbatim>\<open>preamble\<close> emits before it are
  left out.
\<close>

definition preamble_tail :: "(cpu_isa_t \<Rightarrow> bool) \<Rightarrow> instr list" where
  "preamble_tail mayiuse =
     (if mayiuse avx512_common
      then [Mov_imm reg_EVEX_max_8b_offt (word_of_int (2 * EVEX_max_8b_offt))]
      else [])"

text \<open>
  \<^verbatim>\<open>EVEX_compress_addr\<close>, lines 398 to 428. \<open>None\<close> is the failed assertion
  \<^verbatim>\<open>raw_offt <= INT_MAX\<close>. The \<^verbatim>\<open>int\<close> displacement becomes the \<^verbatim>\<open>size_t\<close> of the
  \<^verbatim>\<open>RegExp\<close>: a negative one wraps around.
\<close>

definition EVEX_compress_addr :: "Reg64 \<Rightarrow> int \<Rightarrow> bool \<Rightarrow> Address option" where
  "EVEX_compress_addr base raw_offt bcast =
     (if \<not> raw_offt \<le> INT_MAX then None
      else
        let offt = raw_offt;
            (offt, scale) =
              (if EVEX_max_8b_offt \<le> offt \<and> offt < 3 * EVEX_max_8b_offt
               then (offt - 2 * EVEX_max_8b_offt, 1)
               else if 3 * EVEX_max_8b_offt \<le> offt \<and> offt < 5 * EVEX_max_8b_offt
               then (offt - 4 * EVEX_max_8b_offt, 2)
               else (offt, 0::nat));
            re = \<lparr>ad_base = base, ad_index = None, ad_scale = 0,
                  ad_disp = word_of_int offt, ad_bit = 512, ad_broadcast = bcast\<rparr>
        in Some (if scale \<noteq> 0
                 then re\<lparr>ad_index := Some reg_EVEX_max_8b_offt, ad_scale := scale\<rparr>
                 else re))"

text \<open>
  \<^verbatim>\<open>make_safe_addr\<close>, lines 430 to 438: the instructions emitted and the address
  returned. The offset is a \<^verbatim>\<open>size_t\<close>, compared with \<^verbatim>\<open>INT_MAX\<close> as an unsigned
  number.
\<close>

definition make_safe_addr :: "Reg64 \<Rightarrow> u64 \<Rightarrow> Reg64 \<Rightarrow> bool \<Rightarrow> instr list \<times> Address" where
  "make_safe_addr reg_out offt tmp_reg bcast =
     (if uint offt > INT_MAX
      then ([Mov_imm tmp_reg offt],
            \<lparr>ad_base = reg_out, ad_index = Some tmp_reg, ad_scale = 1, ad_disp = 0,
             ad_bit = 0, ad_broadcast = bcast\<rparr>)
      else ([],
            \<lparr>ad_base = reg_out, ad_index = None, ad_scale = 0, ad_disp = offt,
             ad_bit = 0, ad_broadcast = bcast\<rparr>))"

text \<open>
  The direct-immediate form \<^verbatim>\<open>[reg_out + offt]\<close>, written for any offset: what
  \<^verbatim>\<open>make_safe_addr\<close> returns for a small offset, and what its form for a large offset is
  compared with.
\<close>

definition direct_addr :: "Reg64 \<Rightarrow> u64 \<Rightarrow> bool \<Rightarrow> Address" where
  "direct_addr reg_out offt bcast =
     \<lparr>ad_base = reg_out, ad_index = None, ad_scale = 0, ad_disp = offt,
      ad_bit = 0, ad_broadcast = bcast\<rparr>"

text \<open>\<^verbatim>\<open>EVEX_compress_addr_safe\<close>, lines 440 to 447.\<close>

definition EVEX_compress_addr_safe ::
  "Reg64 \<Rightarrow> u64 \<Rightarrow> Reg64 \<Rightarrow> bool \<Rightarrow> (instr list \<times> Address) option" where
  "EVEX_compress_addr_safe base raw_offt reg_offt bcast =
     (if uint raw_offt > INT_MAX
      then Some (make_safe_addr base raw_offt reg_offt bcast)
      else map_option (\<lambda>a. ([], a)) (EVEX_compress_addr base (uint raw_offt) bcast))"

text \<open>
  \<^verbatim>\<open>safe_add\<close> and \<^verbatim>\<open>safe_sub\<close>, lines 449 to 467. In the direct form the
  \<^verbatim>\<open>size_t\<close> offset is passed as the 32-bit immediate of \<^verbatim>\<open>add\<close> and \<^verbatim>\<open>sub\<close>.
\<close>

definition safe_add :: "Reg64 \<Rightarrow> u64 \<Rightarrow> Reg64 \<Rightarrow> instr list" where
  "safe_add base raw_offt reg_offt =
     (if uint raw_offt > INT_MAX
      then [Mov_imm reg_offt raw_offt, Add_reg base reg_offt]
      else [Add_imm base (ucast raw_offt)])"

definition safe_sub :: "Reg64 \<Rightarrow> u64 \<Rightarrow> Reg64 \<Rightarrow> instr list" where
  "safe_sub base raw_offt reg_offt =
     (if uint raw_offt > INT_MAX
      then [Mov_imm reg_offt raw_offt, Sub_reg base reg_offt]
      else [Sub_imm base (ucast raw_offt)])"


section \<open>Validation: what is accepted\<close>

lemma one_of_set: "one_of x vs = (x \<in> set vs)"
  by (simp add: one_of_def)

lemma nstl_max_max: "nstl_max a b = max a b"
  by (simp add: nstl_max_def max_def)

lemma check_gemm_input_nonnull:
  "check_gemm_input (Some ta) (Some tb) (Some m) (Some n) (Some k) (Some la) (Some lb) (Some lc)
     (Some al) (Some be) wb =
   (if wb \<and> float_ne_zero be then mkldnn_unimplemented
    else if \<not> (ta \<in> {CHR ''T'', CHR ''t'', CHR ''N'', CHR ''n''}
                \<and> tb \<in> {CHR ''T'', CHR ''t'', CHR ''N'', CHR ''n''}
                \<and> 0 \<le> m \<and> 0 \<le> n \<and> 0 \<le> k)
    then mkldnn_invalid_arguments
    else if \<not> (la \<ge> max 1 (if ta \<in> {CHR ''T'', CHR ''t''} then k else m)
          \<and> lb \<ge> max 1 (if tb \<in> {CHR ''T'', CHR ''t''} then n else k)
          \<and> lc \<ge> max 1 m)
    then mkldnn_invalid_arguments else mkldnn_success)"
  unfolding check_gemm_input_def any_null_def is_null_def Let_def one_of_set nstl_max_max
  by (simp only: option.sel list.set insert_iff empty_iff option.distinct simp_thms if_False
      cong: if_cong)

lemma check_gemm_input_null:
  "transa = None \<or> transb = None \<or> M = None \<or> N = None \<or> K = None \<or> lda = None
   \<or> ldb = None \<or> ldc = None \<or> alpha = None \<or> beta = None
   \<Longrightarrow> check_gemm_input transa transb M N K lda ldb ldc alpha beta wb
       = mkldnn_invalid_arguments"
  unfolding check_gemm_input_def any_null_def is_null_def
  by (simp only: list.set insert_iff empty_iff simp_thms if_True)

lemma check_gemm_input_success_nonneg:
  assumes "check_gemm_input transa transb (Some m) (Some n) (Some k) lda ldb ldc alpha beta wb
           = mkldnn_success"
  shows "0 \<le> m \<and> 0 \<le> n \<and> 0 \<le> k"
  using assms unfolding check_gemm_input_def Let_def
  by (simp only: option.sel split: if_split_asm) simp_all

lemma check_gemm_x8x8x32_input_eq:
  "check_gemm_x8x8x32_input offsetc transa transb M N K lda ldb ldc alpha beta wb =
     (case offsetc of None \<Rightarrow> mkldnn_invalid_arguments
      | Some c \<Rightarrow> if c \<in> {CHR ''F'', CHR ''f'', CHR ''C'', CHR ''c'', CHR ''R'', CHR ''r''}
                  then check_gemm_input transa transb M N K lda ldb ldc alpha beta wb
                  else mkldnn_invalid_arguments)"
  by (simp add: check_gemm_x8x8x32_input_def one_of_def split: option.split)

lemma check_x8_success:
  assumes "check_gemm_x8x8x32_input offsetc transa transb M N K lda ldb ldc alpha beta wb
           = mkldnn_success"
  shows "check_gemm_input transa transb M N K lda ldb ldc alpha beta wb = mkldnn_success"
  using assms unfolding check_gemm_x8x8x32_input_eq by (simp split: option.splits if_splits)

text \<open>
  C1. With every scalar-parameter pointer non-null and no bias: for transpose flags among
  \<open>N\<close>, \<open>n\<close>, \<open>T\<close>, \<open>t\<close> and non-negative \<open>M\<close>, \<open>N\<close>, \<open>K\<close>, \<^verbatim>\<open>check_gemm_input\<close> returns
  Success exactly when \<open>lda \<ge> max 1 (rows of A)\<close> (\<open>K\<close> when A is transposed, else \<open>M\<close>),
  \<open>ldb \<ge> max 1 (rows of B)\<close> (\<open>N\<close> when B is transposed, else \<open>K\<close>) and \<open>ldc \<ge> max 1 M\<close>;
  a transpose character outside those four, or a negative extent, yields
  InvalidArguments.
\<close>

theorem check_gemm_input_accepts_iff:
  fixes ta tb :: char and m n k la lb lc :: int
  shows "(ta \<in> {CHR ''N'', CHR ''n'', CHR ''T'', CHR ''t''}
          \<and> tb \<in> {CHR ''N'', CHR ''n'', CHR ''T'', CHR ''t''}
          \<and> 0 \<le> m \<and> 0 \<le> n \<and> 0 \<le> k \<longrightarrow>
            (check_gemm_input (Some ta) (Some tb) (Some m) (Some n) (Some k)
                (Some la) (Some lb) (Some lc) (Some al) (Some be) False = mkldnn_success
             \<longleftrightarrow>
               la \<ge> max 1 (if ta \<in> {CHR ''T'', CHR ''t''} then k else m)
               \<and> lb \<ge> max 1 (if tb \<in> {CHR ''T'', CHR ''t''} then n else k)
               \<and> lc \<ge> max 1 m))
         \<and> (ta \<notin> {CHR ''N'', CHR ''n'', CHR ''T'', CHR ''t''}
             \<or> tb \<notin> {CHR ''N'', CHR ''n'', CHR ''T'', CHR ''t''}
             \<or> m < 0 \<or> n < 0 \<or> k < 0 \<longrightarrow>
              check_gemm_input (Some ta) (Some tb) (Some m) (Some n) (Some k)
                (Some la) (Some lb) (Some lc) (Some al) (Some be) False
              = mkldnn_invalid_arguments)"
proof (intro conjI impI)
  assume "ta \<in> {CHR ''N'', CHR ''n'', CHR ''T'', CHR ''t''}
          \<and> tb \<in> {CHR ''N'', CHR ''n'', CHR ''T'', CHR ''t''}
          \<and> 0 \<le> m \<and> 0 \<le> n \<and> 0 \<le> k"
  then have v: "ta \<in> {CHR ''T'', CHR ''t'', CHR ''N'', CHR ''n''}
                \<and> tb \<in> {CHR ''T'', CHR ''t'', CHR ''N'', CHR ''n''}
                \<and> 0 \<le> m \<and> 0 \<le> n \<and> 0 \<le> k"
    by blast
  show "check_gemm_input (Some ta) (Some tb) (Some m) (Some n) (Some k)
                (Some la) (Some lb) (Some lc) (Some al) (Some be) False = mkldnn_success
             \<longleftrightarrow>
               la \<ge> max 1 (if ta \<in> {CHR ''T'', CHR ''t''} then k else m)
               \<and> lb \<ge> max 1 (if tb \<in> {CHR ''T'', CHR ''t''} then n else k)
               \<and> lc \<ge> max 1 m"
    unfolding check_gemm_input_nonnull using v
    by (simp only: simp_thms if_True if_False mkldnn_status_t.distinct split: if_split)
next
  assume "ta \<notin> {CHR ''N'', CHR ''n'', CHR ''T'', CHR ''t''}
             \<or> tb \<notin> {CHR ''N'', CHR ''n'', CHR ''T'', CHR ''t''}
             \<or> m < 0 \<or> n < 0 \<or> k < 0"
  then have v: "\<not> (ta \<in> {CHR ''T'', CHR ''t'', CHR ''N'', CHR ''n''}
                \<and> tb \<in> {CHR ''T'', CHR ''t'', CHR ''N'', CHR ''n''}
                \<and> 0 \<le> m \<and> 0 \<le> n \<and> 0 \<le> k)"
    by auto
  show "check_gemm_input (Some ta) (Some tb) (Some m) (Some n) (Some k)
                (Some la) (Some lb) (Some lc) (Some al) (Some be) False
              = mkldnn_invalid_arguments"
    unfolding check_gemm_input_nonnull using v by (simp only: simp_thms if_True if_False)
qed

theorem check_gemm_input_accepts_iff_witness:
  "check_gemm_input (Some CHR ''N'') (Some CHR ''T'') (Some 2) (Some 3) (Some 4)
     (Some 2) (Some 3) (Some 2) (Some (Finite 1)) (Some (Finite 0)) False = mkldnn_success
   \<and> check_gemm_input (Some CHR ''N'') (Some CHR ''T'') (Some 2) (Some 3) (Some 4)
     (Some 2) (Some 2) (Some 2) (Some (Finite 1)) (Some (Finite 0)) False \<noteq> mkldnn_success
   \<and> check_gemm_input (Some CHR ''x'') (Some CHR ''T'') (Some 2) (Some 3) (Some 4)
     (Some 2) (Some 3) (Some 2) (Some (Finite 1)) (Some (Finite 0)) False
       = mkldnn_invalid_arguments"
  using check_gemm_input_accepts_iff [of "CHR ''N''" "CHR ''T''" 2 3 4 2 3 2 "Finite 1" "Finite 0"]
    check_gemm_input_accepts_iff [of "CHR ''N''" "CHR ''T''" 2 3 4 2 2 2 "Finite 1" "Finite 0"]
    check_gemm_input_accepts_iff [of "CHR ''x''" "CHR ''T''" 2 3 4 2 3 2 "Finite 1" "Finite 0"]
  by simp

section \<open>The route of the signed 8-bit path\<close>

lemma calls_invoke: "calls (snd (invoke ext b args w)) = calls w @ [b]"
  by (simp add: invoke_def split: prod.split)

lemma kernels_called_simps:
  "kernels_called None = None" "kernels_called (Some r) = Some (calls (snd r))"
  by (simp_all add: kernels_called_def)

lemma calls_invoke_case: "(case invoke ext b args w of (st, w') \<Rightarrow> calls w') = calls w @ [b]"
  by (simp add: invoke_def split: prod.split)

text \<open>
  The route of \<^verbatim>\<open>gemm_s8x8s32\<close> with \<^verbatim>\<open>int8_t\<close> B, after validation has succeeded and
  with \<open>M\<close>, \<open>N\<close>, \<open>K\<close> all nonzero. When \<^verbatim>\<open>avx512_core\<close> is present and \<open>M * N\<close> is
  beyond \<^verbatim>\<open>INT_MAX\<close>, the product \<^verbatim>\<open>(*M) * (*N)\<close> has no defined value and neither has the
  call. In every other case exactly one kernel is called: \<^verbatim>\<open>gemm_driver\<close> when
  \<^verbatim>\<open>avx512_core\<close> is present and \<open>M * N > 1\<close>; otherwise \<^verbatim>\<open>simple_gemm_s8s8s32\<close> when the
  zero-points \<open>ao\<close> and \<open>bo\<close> are both 0 (and, in a build without the vendor integer GEMM,
  \<^verbatim>\<open>avx512_core\<close> is present); otherwise \<^verbatim>\<open>ref_gemm_s8x8s32\<close>. The entry point returns
  what that kernel returns.
\<close>

lemma gemm_s8x8s32_s8_route:
  assumes valid: "check_gemm_x8x8x32_input offsetc transa transb (Some m) (Some n) (Some k)
                    LDA LDB LDC alpha beta False = mkldnn_success"
    and nz: "m \<noteq> 0" "n \<noteq> 0" "k \<noteq> 0"
  shows "gemm_s8x8s32_s8 cfg mayiuse ext transa transb offsetc (Some m) (Some n) (Some k) alpha
           A LDA (Some ao) B LDB (Some bo) beta C LDC co w =
         (if mayiuse avx512_core \<and> m * n > INT_MAX then None
          else Some (invoke ext
                 (if mayiuse avx512_core \<and> m * n > 1 then Gemm_driver
                  else if ao = 0 \<and> bo = 0 \<and> (USE_MKL_IGEMM cfg \<or> mayiuse avx512_core)
                       then Simple_gemm_s8s8s32
                  else Ref_gemm_s8x8s32)
                 \<lparr>a_transa = transa, a_transb = transb, a_offsetc = offsetc,
                  a_M = Some m, a_N = Some n, a_K = Some k, a_alpha = alpha, a_A = A,
                  a_lda = LDA, a_ao = Some ao, a_B = B, a_ldb = LDB, a_bo = Some bo,
                  a_beta = beta, a_C = C, a_ldc = LDC, a_co = co,
                  a_force_jit_nocopy_gemm = False\<rparr> w))
         \<and> kernels_called
             (gemm_s8x8s32_s8 cfg mayiuse ext transa transb offsetc (Some m) (Some n) (Some k)
                alpha A LDA (Some ao) B LDB (Some bo) beta C LDC co w) =
           (if mayiuse avx512_core \<and> m * n > INT_MAX then None
            else Some (calls w @
                 [if mayiuse avx512_core \<and> m * n > 1 then Gemm_driver
                  else if ao = 0 \<and> bo = 0 \<and> (USE_MKL_IGEMM cfg \<or> mayiuse avx512_core)
                       then Simple_gemm_s8s8s32
                  else Ref_gemm_s8x8s32]))"
proof -
  have "0 \<le> m \<and> 0 \<le> n"
    using check_gemm_input_success_nonneg [OF check_x8_success [OF valid]] by simp
  then have "0 \<le> m * n" by simp
  then have mul: "c_int_mul m n = (if m * n \<le> INT_MAX then Some (m * n) else None)"
    by (simp add: c_int_mul_def INT_MAX_def)
  have first: "gemm_s8x8s32_s8 cfg mayiuse ext transa transb offsetc (Some m) (Some n) (Some k)
           alpha A LDA (Some ao) B LDB (Some bo) beta C LDC co w =
         (if mayiuse avx512_core \<and> m * n > INT_MAX then None
          else Some (invoke ext
                 (if mayiuse avx512_core \<and> m * n > 1 then Gemm_driver
                  else if ao = 0 \<and> bo = 0 \<and> (USE_MKL_IGEMM cfg \<or> mayiuse avx512_core)
                       then Simple_gemm_s8s8s32
                  else Ref_gemm_s8x8s32)
                 \<lparr>a_transa = transa, a_transb = transb, a_offsetc = offsetc,
                  a_M = Some m, a_N = Some n, a_K = Some k, a_alpha = alpha, a_A = A,
                  a_lda = LDA, a_ao = Some ao, a_B = B, a_ldb = LDB, a_bo = Some bo,
                  a_beta = beta, a_C = C, a_ldc = LDC, a_co = co,
                  a_force_jit_nocopy_gemm = False\<rparr> w))"
    unfolding gemm_s8x8s32_s8_def Let_def
    using valid nz
    by (simp add: mul everyone_is_def IMPLICATION_def)
  show ?thesis
    unfolding first
    by (cases "mayiuse avx512_core \<and> INT_MAX < m * n")
      (simp_all only: kernels_called_simps calls_invoke if_True if_False simp_thms)
qed

lemma gemm_s8x8s32_s8_route_examples:
  "kernels_called
     (gemm_s8x8s32_s8 \<lparr>USE_CBLAS = False, USE_MKL_IGEMM = False, ARM_ARCH = False\<rparr>
        (\<lambda>isa. True) (\<lambda>b args (mm::unit). (mkldnn_success, mm))
        (Some CHR ''N'') (Some CHR ''N'') (Some CHR ''F'') (Some 2) (Some 2) (Some 2)
        (Some (Finite 1)) (Some 0) (Some 2) (Some 0) (Some 4) (Some 2) (Some 0)
        (Some (Finite 0)) (Some 8) (Some 2) (Some 12) \<lparr>mem = (), calls = []\<rparr>)
   = Some [Gemm_driver]
   \<and> kernels_called
     (gemm_s8x8s32_s8 \<lparr>USE_CBLAS = False, USE_MKL_IGEMM = False, ARM_ARCH = False\<rparr>
        (\<lambda>isa. True) (\<lambda>b args (mm::unit). (mkldnn_success, mm))
        (Some CHR ''N'') (Some CHR ''N'') (Some CHR ''F'') (Some 1) (Some 1) (Some 2)
        (Some (Finite 1)) (Some 0) (Some 2) (Some 0) (Some 4) (Some 2) (Some 0)
        (Some (Finite 0)) (Some 8) (Some 2) (Some 12) \<lparr>mem = (), calls = []\<rparr>)
   = Some [Simple_gemm_s8s8s32]
   \<and> kernels_called
     (gemm_s8x8s32_s8 \<lparr>USE_CBLAS = False, USE_MKL_IGEMM = False, ARM_ARCH = False\<rparr>
        (\<lambda>isa. True) (\<lambda>b args (mm::unit). (mkldnn_success, mm))
        (Some CHR ''N'') (Some CHR ''N'') (Some CHR ''F'') (Some 1) (Some 1) (Some 2)
        (Some (Finite 1)) (Some 0) (Some 2) (Some 3) (Some 4) (Some 2) (Some 0)
        (Some (Finite 0)) (Some 8) (Some 2) (Some 12) \<lparr>mem = (), calls = []\<rparr>)
   = Some [Ref_gemm_s8x8s32]"
proof -
  have v2: "check_gemm_x8x8x32_input (Some CHR ''F'') (Some CHR ''N'') (Some CHR ''N'')
              (Some 2) (Some 2) (Some 2) (Some 2) (Some 2) (Some 2)
              (Some (Finite 1)) (Some (Finite 0)) False = mkldnn_success"
    unfolding check_gemm_x8x8x32_input_eq check_gemm_input_nonnull by simp
  have v1: "check_gemm_x8x8x32_input (Some CHR ''F'') (Some CHR ''N'') (Some CHR ''N'')
              (Some 1) (Some 1) (Some 2) (Some 2) (Some 2) (Some 2)
              (Some (Finite 1)) (Some (Finite 0)) False = mkldnn_success"
    unfolding check_gemm_x8x8x32_input_eq check_gemm_input_nonnull by simp
  show ?thesis
    using gemm_s8x8s32_s8_route [OF v2, where ao = 0 and bo = 0 and mayiuse = "\<lambda>isa. True"
        and cfg = "\<lparr>USE_CBLAS = False, USE_MKL_IGEMM = False, ARM_ARCH = False\<rparr>"
        and ext = "\<lambda>b args (mm::unit). (mkldnn_success, mm)" and A = "Some 0"
        and B = "Some 4" and C = "Some 8" and co = "Some 12"
        and w = "\<lparr>mem = (), calls = []\<rparr>"]
      gemm_s8x8s32_s8_route [OF v1, where ao = 0 and bo = 0 and mayiuse = "\<lambda>isa. True"
        and cfg = "\<lparr>USE_CBLAS = False, USE_MKL_IGEMM = False, ARM_ARCH = False\<rparr>"
        and ext = "\<lambda>b args (mm::unit). (mkldnn_success, mm)" and A = "Some 0"
        and B = "Some 4" and C = "Some 8" and co = "Some 12"
        and w = "\<lparr>mem = (), calls = []\<rparr>"]
      gemm_s8x8s32_s8_route [OF v1, where ao = 3 and bo = 0 and mayiuse = "\<lambda>isa. True"
        and cfg = "\<lparr>USE_CBLAS = False, USE_MKL_IGEMM = False, ARM_ARCH = False\<rparr>"
        and ext = "\<lambda>b args (mm::unit). (mkldnn_success, mm)" and A = "Some 0"
        and B = "Some 4" and C = "Some 8" and co = "Some 12"
        and w = "\<lparr>mem = (), calls = []\<rparr>"]
    by (simp add: INT_MAX_def kernels_called_simps calls_invoke)
qed

text \<open>
  C2. The specified route sends every validated request with nonzero extents to
  \<^verbatim>\<open>gemm_driver\<close> when \<^verbatim>\<open>avx512_core\<close> is present and \<open>M * N > 1\<close>. The code does not
  follow it for a large output: it forms the product \<^verbatim>\<open>(*M) * (*N)\<close> in \<^verbatim>\<open>int\<close>. With
  \<open>M = N = 65536\<close>, \<open>K = 1\<close>, no transposition and leading dimensions 65536, 1 and 65536,
  validation accepts the request and \<open>M * N = 2 ^ 32\<close> is greater than 1, but the product is
  beyond \<^verbatim>\<open>INT_MAX\<close>: it has no defined value, so the call has no defined route and it is
  not determined that \<^verbatim>\<open>gemm_driver\<close> is called, whatever the zero-points, the build and
  the kernels are.
\<close>

theorem gemm_s8x8s32_s8_product_overflow:
  assumes isa: "mayiuse avx512_core"
  shows "check_gemm_x8x8x32_input (Some CHR ''F'') (Some CHR ''N'') (Some CHR ''N'')
           (Some 65536) (Some 65536) (Some 1) (Some 65536) (Some 1) (Some 65536)
           (Some (Finite 1)) (Some (Finite 0)) False = mkldnn_success
       \<and> (65536 :: int) * 65536 > 1
       \<and> (65536 :: int) * 65536 > INT_MAX
       \<and> c_int_mul 65536 65536 = None
       \<and> gemm_s8x8s32_s8 cfg mayiuse ext (Some CHR ''N'') (Some CHR ''N'') (Some CHR ''F'')
           (Some 65536) (Some 65536) (Some 1) (Some (Finite 1)) A (Some 65536) (Some ao)
           B (Some 1) (Some bo) (Some (Finite 0)) C (Some 65536) co w = None
       \<and> kernels_called
           (gemm_s8x8s32_s8 cfg mayiuse ext (Some CHR ''N'') (Some CHR ''N'') (Some CHR ''F'')
              (Some 65536) (Some 65536) (Some 1) (Some (Finite 1)) A (Some 65536) (Some ao)
              B (Some 1) (Some bo) (Some (Finite 0)) C (Some 65536) co w)
         \<noteq> Some (calls w @ [Gemm_driver])"
proof -
  have valid: "check_gemm_x8x8x32_input (Some CHR ''F'') (Some CHR ''N'') (Some CHR ''N'')
           (Some 65536) (Some 65536) (Some 1) (Some 65536) (Some 1) (Some 65536)
           (Some (Finite 1)) (Some (Finite 0)) False = mkldnn_success"
    unfolding check_gemm_x8x8x32_input_eq check_gemm_input_nonnull by simp
  have big: "(65536 :: int) * 65536 > INT_MAX"
    by (simp add: INT_MAX_def)
  have mul: "c_int_mul 65536 65536 = None"
    by (simp add: c_int_mul_def INT_MAX_def)
  have run: "gemm_s8x8s32_s8 cfg mayiuse ext (Some CHR ''N'') (Some CHR ''N'') (Some CHR ''F'')
           (Some 65536) (Some 65536) (Some 1) (Some (Finite 1)) A (Some 65536) (Some ao)
           B (Some 1) (Some bo) (Some (Finite 0)) C (Some 65536) co w = None"
    unfolding gemm_s8x8s32_s8_def Let_def valid
    using isa by (simp add: mul)
  have log: "kernels_called
           (gemm_s8x8s32_s8 cfg mayiuse ext (Some CHR ''N'') (Some CHR ''N'') (Some CHR ''F'')
              (Some 65536) (Some 65536) (Some 1) (Some (Finite 1)) A (Some 65536) (Some ao)
              B (Some 1) (Some bo) (Some (Finite 0)) C (Some 65536) co w)
         \<noteq> Some (calls w @ [Gemm_driver])"
    unfolding run by (simp add: kernels_called_simps)
  have one: "(65536 :: int) * 65536 > 1" by simp
  show ?thesis
    using valid one big mul run log by (intro conjI)
qed

theorem gemm_s8x8s32_s8_product_overflow_witness:
  "gemm_s8x8s32_s8 \<lparr>USE_CBLAS = False, USE_MKL_IGEMM = False, ARM_ARCH = False\<rparr>
        (\<lambda>isa. True) (\<lambda>b args (mm::unit). (mkldnn_success, mm))
        (Some CHR ''N'') (Some CHR ''N'') (Some CHR ''F'') (Some 65536) (Some 65536) (Some 1)
        (Some (Finite 1)) (Some 0) (Some 65536) (Some 0) (Some 65536) (Some 1) (Some 0)
        (Some (Finite 0)) (Some 131072) (Some 65536) (Some 0) \<lparr>mem = (), calls = []\<rparr>
   = None
   \<and> kernels_called
       (gemm_s8x8s32_s8 \<lparr>USE_CBLAS = False, USE_MKL_IGEMM = False, ARM_ARCH = False\<rparr>
        (\<lambda>isa. True) (\<lambda>b args (mm::unit). (mkldnn_success, mm))
        (Some CHR ''N'') (Some CHR ''N'') (Some CHR ''F'') (Some 65536) (Some 65536) (Some 1)
        (Some (Finite 1)) (Some 0) (Some 65536) (Some 0) (Some 65536) (Some 1) (Some 0)
        (Some (Finite 0)) (Some 131072) (Some 65536) (Some 0) \<lparr>mem = (), calls = []\<rparr>)
     \<noteq> Some [Gemm_driver]
   \<and> kernels_called
       (gemm_s8x8s32_s8 \<lparr>USE_CBLAS = False, USE_MKL_IGEMM = False, ARM_ARCH = False\<rparr>
        (\<lambda>isa. True) (\<lambda>b args (mm::unit). (mkldnn_success, mm))
        (Some CHR ''N'') (Some CHR ''N'') (Some CHR ''F'') (Some 2) (Some 2) (Some 1)
        (Some (Finite 1)) (Some 0) (Some 2) (Some 0) (Some 65536) (Some 1) (Some 0)
        (Some (Finite 0)) (Some 131072) (Some 2) (Some 0) \<lparr>mem = (), calls = []\<rparr>)
     = Some [Gemm_driver]"
proof -
  have isa: "(\<lambda>isa :: cpu_isa_t. True) avx512_core" by simp
  note t = gemm_s8x8s32_s8_product_overflow [OF isa,
      where cfg = "\<lparr>USE_CBLAS = False, USE_MKL_IGEMM = False, ARM_ARCH = False\<rparr>"
        and ext = "\<lambda>b args (mm::unit). (mkldnn_success, mm)" and A = "Some 0"
        and ao = 0 and B = "Some 65536" and bo = 0 and C = "Some 131072" and co = "Some 0"
        and w = "\<lparr>mem = (), calls = []\<rparr>"]
  have a: "gemm_s8x8s32_s8 \<lparr>USE_CBLAS = False, USE_MKL_IGEMM = False, ARM_ARCH = False\<rparr>
        (\<lambda>isa. True) (\<lambda>b args (mm::unit). (mkldnn_success, mm))
        (Some CHR ''N'') (Some CHR ''N'') (Some CHR ''F'') (Some 65536) (Some 65536) (Some 1)
        (Some (Finite 1)) (Some 0) (Some 65536) (Some 0) (Some 65536) (Some 1) (Some 0)
        (Some (Finite 0)) (Some 131072) (Some 65536) (Some 0) \<lparr>mem = (), calls = []\<rparr>
   = None"
    using t [THEN conjunct2, THEN conjunct2, THEN conjunct2, THEN conjunct2, THEN conjunct1] .
  have b: "kernels_called
       (gemm_s8x8s32_s8 \<lparr>USE_CBLAS = False, USE_MKL_IGEMM = False, ARM_ARCH = False\<rparr>
        (\<lambda>isa. True) (\<lambda>b args (mm::unit). (mkldnn_success, mm))
        (Some CHR ''N'') (Some CHR ''N'') (Some CHR ''F'') (Some 65536) (Some 65536) (Some 1)
        (Some (Finite 1)) (Some 0) (Some 65536) (Some 0) (Some 65536) (Some 1) (Some 0)
        (Some (Finite 0)) (Some 131072) (Some 65536) (Some 0) \<lparr>mem = (), calls = []\<rparr>)
     \<noteq> Some [Gemm_driver]"
    using t [THEN conjunct2, THEN conjunct2, THEN conjunct2, THEN conjunct2, THEN conjunct2]
    by simp
  have v: "check_gemm_x8x8x32_input (Some CHR ''F'') (Some CHR ''N'') (Some CHR ''N'')
              (Some 2) (Some 2) (Some 1) (Some 2) (Some 1) (Some 2)
              (Some (Finite 1)) (Some (Finite 0)) False = mkldnn_success"
    unfolding check_gemm_x8x8x32_input_eq check_gemm_input_nonnull by simp
  have c: "kernels_called
       (gemm_s8x8s32_s8 \<lparr>USE_CBLAS = False, USE_MKL_IGEMM = False, ARM_ARCH = False\<rparr>
        (\<lambda>isa. True) (\<lambda>b args (mm::unit). (mkldnn_success, mm))
        (Some CHR ''N'') (Some CHR ''N'') (Some CHR ''F'') (Some 2) (Some 2) (Some 1)
        (Some (Finite 1)) (Some 0) (Some 2) (Some 0) (Some 65536) (Some 1) (Some 0)
        (Some (Finite 0)) (Some 131072) (Some 2) (Some 0) \<lparr>mem = (), calls = []\<rparr>)
     = Some [Gemm_driver]"
    using gemm_s8x8s32_s8_route [OF v, where ao = 0 and bo = 0 and mayiuse = "\<lambda>isa. True"
        and cfg = "\<lparr>USE_CBLAS = False, USE_MKL_IGEMM = False, ARM_ARCH = False\<rparr>"
        and ext = "\<lambda>b args (mm::unit). (mkldnn_success, mm)" and A = "Some 0"
        and B = "Some 65536" and C = "Some 131072" and co = "Some 0"
        and w = "\<lparr>mem = (), calls = []\<rparr>", THEN conjunct2]
    by (simp add: INT_MAX_def)
  show ?thesis
    using a b c by (intro conjI)
qed



section \<open>Validation comes before every kernel\<close>

lemma extended_sgemm_rejected:
  assumes "check_gemm_input transa transb M N K lda ldb ldc alpha beta (bias \<noteq> None) = st"
    and "st \<noteq> mkldnn_success"
  shows "extended_sgemm cfg mayiuse nthr ext transa transb M N K alpha A lda B ldb beta C ldc
           bias force w = (st, w)"
  using assms unfolding extended_sgemm_def Let_def by simp

lemma gemm_s8x8s32_u8_rejected:
  assumes "check_gemm_x8x8x32_input offsetc transa transb M N K LDA LDB LDC alpha beta False = st"
    and "st \<noteq> mkldnn_success"
  shows "gemm_s8x8s32_u8 cfg mayiuse ext transa transb offsetc M N K alpha A LDA ao B LDB bo
           beta C LDC co w = Some (st, w)"
  using assms unfolding gemm_s8x8s32_u8_def Let_def by simp

lemma gemm_s8x8s32_s8_rejected:
  assumes "check_gemm_x8x8x32_input offsetc transa transb M N K LDA LDB LDC alpha beta False = st"
    and "st \<noteq> mkldnn_success"
  shows "gemm_s8x8s32_s8 cfg mayiuse ext transa transb offsetc M N K alpha A LDA ao B LDB bo
           beta C LDC co w = Some (st, w)"
  using assms unfolding gemm_s8x8s32_s8_def Let_def by simp

lemma mkldnn_gemm_bf16bf16f32_rejected:
  assumes "check_gemm_input transa transb M N K lda ldb ldc alpha beta False = st"
    and "st \<noteq> mkldnn_success"
  shows "mkldnn_gemm_bf16bf16f32 mayiuse ext transa transb M N K alpha A lda B ldb beta C ldc w
         = (st, w)"
  using assms unfolding mkldnn_gemm_bf16bf16f32_def Let_def by simp

lemma check_gemm_input_unimplemented:
  "check_gemm_input transa transb M N K lda ldb ldc alpha beta wb \<noteq> mkldnn_unimplemented
   \<or> wb"
  unfolding check_gemm_input_def Let_def
  by (simp split: if_split)

lemma check_gemm_input_no_bias:
  "check_gemm_input transa transb M N K lda ldb ldc alpha beta False \<noteq> mkldnn_unimplemented"
  using check_gemm_input_unimplemented [of transa transb M N K lda ldb ldc alpha beta False]
  by simp

lemma check_x8_no_bias:
  "check_gemm_x8x8x32_input offsetc transa transb M N K lda ldb ldc alpha beta False
   \<noteq> mkldnn_unimplemented"
  unfolding check_gemm_x8x8x32_input_eq
  by (simp add: check_gemm_input_no_bias split: option.split)

lemma check_x8_null:
  "offsetc = None \<or> transa = None \<or> transb = None \<or> M = None \<or> N = None \<or> K = None
   \<or> lda = None \<or> ldb = None \<or> ldc = None \<or> alpha = None \<or> beta = None
   \<Longrightarrow> check_gemm_x8x8x32_input offsetc transa transb M N K lda ldb ldc alpha beta wb
       = mkldnn_invalid_arguments"
  unfolding check_gemm_x8x8x32_input_eq
  by (cases offsetc) (auto simp add: check_gemm_input_null)

text \<open>
  C3 (amended). Validation is done before any kernel is called, and a request it rejects
  is answered with the memory and the log of kernel calls unchanged. Its tests come in
  this order: a null scalar-parameter pointer gives InvalidArguments; then a bias with
  \<open>beta \<noteq> 0\<close> gives Unimplemented, whatever the flags, extents and leading dimensions
  are; then a malformed flag, a negative extent or a short leading dimension gives
  InvalidArguments. So a malformed request is answered InvalidArguments unless it comes
  with a bias and \<open>beta \<noteq> 0\<close>; on the entry points without bias, validation never
  answers Unimplemented.
\<close>

theorem validation_order:
  fixes w :: "'m world"
  shows
  "(transa = None \<or> transb = None \<or> M = None \<or> N = None \<or> K = None \<or> lda = None
     \<or> ldb = None \<or> ldc = None \<or> alpha = None \<or> beta = None \<longrightarrow>
     check_gemm_input transa transb M N K lda ldb ldc alpha beta wb = mkldnn_invalid_arguments)
   \<and> check_gemm_input (Some ta) (Some tb) (Some m) (Some n) (Some k) (Some la) (Some lb)
        (Some lc) (Some al) (Some be) wb =
      (if wb \<and> float_ne_zero be then mkldnn_unimplemented
       else if \<not> (ta \<in> {CHR ''T'', CHR ''t'', CHR ''N'', CHR ''n''}
                   \<and> tb \<in> {CHR ''T'', CHR ''t'', CHR ''N'', CHR ''n''}
                   \<and> 0 \<le> m \<and> 0 \<le> n \<and> 0 \<le> k)
       then mkldnn_invalid_arguments
       else if \<not> (la \<ge> max 1 (if ta \<in> {CHR ''T'', CHR ''t''} then k else m)
                   \<and> lb \<ge> max 1 (if tb \<in> {CHR ''T'', CHR ''t''} then n else k)
                   \<and> lc \<ge> max 1 m)
       then mkldnn_invalid_arguments else mkldnn_success)
   \<and> check_gemm_input transa transb M N K lda ldb ldc alpha beta False \<noteq> mkldnn_unimplemented
   \<and> check_gemm_x8x8x32_input offsetc transa transb M N K lda ldb ldc alpha beta False
       \<noteq> mkldnn_unimplemented
   \<and> (check_gemm_input transa transb M N K lda ldb ldc alpha beta (bias \<noteq> None)
        \<noteq> mkldnn_success \<longrightarrow>
      extended_sgemm cfg mayiuse nthr ext transa transb M N K alpha A lda B ldb beta C ldc
        bias force w =
      (check_gemm_input transa transb M N K lda ldb ldc alpha beta (bias \<noteq> None), w))
   \<and> (check_gemm_input transa transb M N K lda ldb ldc alpha beta False
        \<noteq> mkldnn_success \<longrightarrow>
      mkldnn_gemm_bf16bf16f32 mayiuse ext transa transb M N K alpha A lda B ldb beta C ldc w =
      (check_gemm_input transa transb M N K lda ldb ldc alpha beta False, w))
   \<and> (check_gemm_x8x8x32_input offsetc transa transb M N K lda ldb ldc alpha beta False
        \<noteq> mkldnn_success \<longrightarrow>
      gemm_s8x8s32_u8 cfg mayiuse ext transa transb offsetc M N K alpha A lda ao B ldb bo
        beta C ldc co w =
      Some (check_gemm_x8x8x32_input offsetc transa transb M N K lda ldb ldc alpha beta
              False, w)
      \<and> gemm_s8x8s32_s8 cfg mayiuse ext transa transb offsetc M N K alpha A lda ao B ldb bo
        beta C ldc co w =
      Some (check_gemm_x8x8x32_input offsetc transa transb M N K lda ldb ldc alpha beta
              False, w))"
proof (intro conjI impI)
  show "extended_sgemm cfg mayiuse nthr ext transa transb M N K alpha A lda B ldb beta C ldc
        bias force w =
      (check_gemm_input transa transb M N K lda ldb ldc alpha beta (bias \<noteq> None), w)"
    if "check_gemm_input transa transb M N K lda ldb ldc alpha beta (bias \<noteq> None)
        \<noteq> mkldnn_success"
    using extended_sgemm_rejected [OF refl that] .
  show "mkldnn_gemm_bf16bf16f32 mayiuse ext transa transb M N K alpha A lda B ldb beta C ldc w =
      (check_gemm_input transa transb M N K lda ldb ldc alpha beta False, w)"
    if "check_gemm_input transa transb M N K lda ldb ldc alpha beta False \<noteq> mkldnn_success"
    using mkldnn_gemm_bf16bf16f32_rejected [OF refl that] .
  show "gemm_s8x8s32_u8 cfg mayiuse ext transa transb offsetc M N K alpha A lda ao B ldb bo
        beta C ldc co w =
      Some (check_gemm_x8x8x32_input offsetc transa transb M N K lda ldb ldc alpha beta
              False, w)"
    if "check_gemm_x8x8x32_input offsetc transa transb M N K lda ldb ldc alpha beta False
        \<noteq> mkldnn_success"
    using gemm_s8x8s32_u8_rejected [OF refl that] .
  show "gemm_s8x8s32_s8 cfg mayiuse ext transa transb offsetc M N K alpha A lda ao B ldb bo
        beta C ldc co w =
      Some (check_gemm_x8x8x32_input offsetc transa transb M N K lda ldb ldc alpha beta
              False, w)"
    if "check_gemm_x8x8x32_input offsetc transa transb M N K lda ldb ldc alpha beta False
        \<noteq> mkldnn_success"
    using gemm_s8x8s32_s8_rejected [OF refl that] .
qed (rule check_gemm_input_null check_gemm_input_nonnull check_gemm_input_no_bias
      check_x8_no_bias; assumption?)+

theorem validation_order_witness:
  "extended_sgemm \<lparr>USE_CBLAS = False, USE_MKL_IGEMM = False, ARM_ARCH = True\<rparr> (\<lambda>isa. False) 1
     (\<lambda>b args (mm::unit). (mkldnn_success, mm))
     None (Some CHR ''N'') (Some 1) (Some 1) (Some 1) (Some (Finite 1)) (Some 0) (Some 1)
     (Some 4) (Some 1) (Some (Finite 1)) (Some 8) (Some 1) (Some 12) False
     \<lparr>mem = (), calls = []\<rparr>
   = (mkldnn_invalid_arguments, \<lparr>mem = (), calls = []\<rparr>)
   \<and> gemm_s8x8s32_u8 \<lparr>USE_CBLAS = False, USE_MKL_IGEMM = False, ARM_ARCH = True\<rparr>
     (\<lambda>isa. False) (\<lambda>b args (mm::unit). (mkldnn_success, mm))
     (Some CHR ''N'') (Some CHR ''N'') (Some CHR ''F'') (Some (- 1)) (Some 1) (Some 1)
     (Some (Finite 1)) (Some 0) (Some 1) (Some 0) (Some 4) (Some 1) (Some 0)
     (Some (Finite 0)) (Some 8) (Some 1) (Some 12) \<lparr>mem = (), calls = []\<rparr>
   = Some (mkldnn_invalid_arguments, \<lparr>mem = (), calls = []\<rparr>)"
proof -
  have a: "check_gemm_input None (Some CHR ''N'') (Some 1) (Some 1) (Some 1) (Some 1) (Some 1)
             (Some 1) (Some (Finite 1)) (Some (Finite 1)) (Some (12::nat) \<noteq> None)
           = mkldnn_invalid_arguments"
    by (rule check_gemm_input_null) simp
  have b: "check_gemm_x8x8x32_input (Some CHR ''F'') (Some CHR ''N'') (Some CHR ''N'')
             (Some (- 1)) (Some 1) (Some 1) (Some 1) (Some 1) (Some 1)
             (Some (Finite 1)) (Some (Finite 0)) False = mkldnn_invalid_arguments"
    unfolding check_gemm_x8x8x32_input_eq check_gemm_input_nonnull by simp
  show ?thesis
    using validation_order [where transa = None and transb = "Some CHR ''N''"
        and M = "Some 1" and N = "Some 1" and K = "Some 1" and lda = "Some 1"
        and ldb = "Some 1" and ldc = "Some 1" and alpha = "Some (Finite 1)"
        and beta = "Some (Finite 1)" and bias = "Some 12" and A = "Some 0" and B = "Some 4"
        and C = "Some 8" and force = False and nthr = 1
        and cfg = "\<lparr>USE_CBLAS = False, USE_MKL_IGEMM = False, ARM_ARCH = True\<rparr>"
        and mayiuse = "\<lambda>isa. False" and ext = "\<lambda>b args (mm::unit). (mkldnn_success, mm)"
        and w = "\<lparr>mem = (), calls = []\<rparr>"]
      validation_order [where transa = "Some CHR ''N''" and transb = "Some CHR ''N''"
        and offsetc = "Some CHR ''F''"
        and M = "Some (- 1)" and N = "Some 1" and K = "Some 1" and lda = "Some 1"
        and ldb = "Some 1" and ldc = "Some 1" and alpha = "Some (Finite 1)"
        and beta = "Some (Finite 0)" and co = "Some 12" and A = "Some 0" and B = "Some 4"
        and C = "Some 8" and ao = "Some 0" and bo = "Some 0"
        and cfg = "\<lparr>USE_CBLAS = False, USE_MKL_IGEMM = False, ARM_ARCH = True\<rparr>"
        and mayiuse = "\<lambda>isa. False" and ext = "\<lambda>b args (mm::unit). (mkldnn_success, mm)"
        and w = "\<lparr>mem = (), calls = []\<rparr>"]
    unfolding a b by simp
qed

theorem malformed_request_unimplemented_counterexample:
  "extended_sgemm \<lparr>USE_CBLAS = False, USE_MKL_IGEMM = False, ARM_ARCH = True\<rparr> (\<lambda>isa. False) 1
     (\<lambda>b args (mm::unit). (mkldnn_success, mm))
     (Some CHR ''X'') (Some CHR ''N'') (Some (- 1)) (Some 1) (Some 1) (Some (Finite 1))
     (Some 0) (Some 0) (Some 4) (Some 1) (Some (Finite 1)) (Some 8) (Some 1) (Some 12) False
     \<lparr>mem = (), calls = []\<rparr>
   = (mkldnn_unimplemented, \<lparr>mem = (), calls = []\<rparr>)"
  by (simp add: extended_sgemm_def check_gemm_input_nonnull)

section \<open>Degenerate shapes\<close>

lemma for_nd1_loop_fold: "for_nd1_loop d0 e f s = fold f [d0..<e] s"
proof (induction d0 e f s rule: for_nd1_loop.induct)
  case (1 d0 e f s)
  show ?case
  proof (cases "d0 < e")
    case True
    have "for_nd1_loop d0 e f s = for_nd1_loop (d0 + 1) e f (f d0 s)"
      using True by (subst for_nd1_loop.simps) (simp only: if_True)
    also have "\<dots> = fold f [d0 + 1..<e] (f d0 s)"
      using "1.IH" [OF True] .
    also have "\<dots> = fold f [d0..<e] s"
      using True by (simp add: upt_conv_Cons)
    finally show ?thesis .
  next
    case False
    then show ?thesis by (subst for_nd1_loop.simps) simp
  qed
qed

lemma fold_invariant:
  assumes step: "\<And>x s. P s \<Longrightarrow> P (f x s)"
  shows "P s \<Longrightarrow> P (fold f xs s)"
  by (induction xs arbitrary: s) (simp_all add: step)

lemma parallel_nd1_invariant:
  assumes step: "\<And>d s. P s \<Longrightarrow> P (f d s)" and init: "P s"
  shows "P (parallel_nd1 nthr D0 f s)"
proof -
  have one: "P (for_nd1 ithr nthr D0 f s')" if "P s'" for ithr s'
    unfolding for_nd1_def for_nd1_loop_fold
    using fold_invariant [of P f, OF step that] by (simp split: prod.split)
  show ?thesis
    unfolding parallel_nd1_def
    by (rule fold_invariant [of P "\<lambda>ithr. for_nd1 ithr nthr D0 f", OF one init])
qed

lemma extended_sgemm_first_kernel:
  assumes valid: "check_gemm_input transa transb M N K lda ldb ldc alpha beta (bias \<noteq> None)
                  = mkldnn_success"
  shows "\<exists>ks. calls (snd (extended_sgemm cfg mayiuse nthr ext transa transb M N K alpha A lda B
                            ldb beta C ldc bias force w))
              = calls w @
                (if USE_CBLAS cfg \<and> \<not> force then Cblas_sgemm
                 else if \<not> ARM_ARCH cfg \<and> mayiuse avx512_mic then Jit_avx512_common_gemm_f32
                 else if \<not> ARM_ARCH cfg \<and> mayiuse avx then Gemm_driver
                 else Ref_gemm) # ks"
proof (cases "USE_CBLAS cfg \<and> \<not> force")
  case True
  define args where "args = \<lparr>a_transa = transa, a_transb = transb, a_offsetc = None,
                  a_M = M, a_N = N, a_K = K, a_alpha = alpha, a_A = A, a_lda = lda,
                  a_ao = None, a_B = B, a_ldb = ldb, a_bo = None, a_beta = beta,
                  a_C = C, a_ldc = ldc, a_co = bias,
                  a_force_jit_nocopy_gemm = force\<rparr>"
  define w1 where "w1 = snd (invoke ext Cblas_sgemm args w)"
  define P where "P = (\<lambda>s :: 'a world. \<exists>ks. calls s = calls w @ Cblas_sgemm # ks)"
  have P1: "P w1" unfolding P_def w1_def by (simp add: calls_invoke)
  have Pstep: "P (snd (invoke ext (Cblas_saxpy (int n * the ldc)) args s))" if "P s" for n s
    using that unfolding P_def by (auto simp add: calls_invoke)
  have "P (parallel_nd1 nthr (nat (the N))
             (\<lambda>n w'. snd (invoke ext (Cblas_saxpy (int n * the ldc)) args w')) w1)"
    by (rule parallel_nd1_invariant [of P, OF Pstep P1])
  then have "P (if bias \<noteq> None
                then parallel_nd1 nthr (nat (the N))
                  (\<lambda>n w'. snd (invoke ext (Cblas_saxpy (int n * the ldc)) args w')) w1
                else w1)"
    using P1 by simp
  then show ?thesis
    using True valid unfolding extended_sgemm_def Let_def P_def w1_def args_def by simp
next
  case False
  then show ?thesis
    using valid unfolding extended_sgemm_def Let_def by (auto simp add: calls_invoke)
qed

text \<open>
  C4 (amended). The integer entry points (\<^verbatim>\<open>gemm_s8x8s32\<close> for both types of B,
  \<^verbatim>\<open>mkldnn_gemm_s8u8s32\<close>, \<^verbatim>\<open>mkldnn_gemm_s8s8s32\<close>), given a request that passes
  validation and has \<open>M = 0\<close> or \<open>N = 0\<close> or \<open>K = 0\<close>, return Success at once: no kernel
  is called and the memory is unchanged. The other entry points have no such early
  return: \<^verbatim>\<open>mkldnn_gemm_bf16bf16f32\<close> hands every validated request to \<^verbatim>\<open>gemm_driver\<close>
  when \<^verbatim>\<open>avx512_core\<close> is present and answers Unimplemented otherwise, and
  \<^verbatim>\<open>extended_sgemm\<close> hands every validated request to the kernel of its route, so what
  happens to \<^verbatim>\<open>C\<close> there is up to that kernel.
\<close>

theorem degenerate_shapes:
  fixes w :: "'m world"
  shows
  "(check_gemm_x8x8x32_input offsetc transa transb (Some m) (Some n) (Some k) lda ldb ldc
      alpha beta False = mkldnn_success \<and> (m = 0 \<or> n = 0 \<or> k = 0) \<longrightarrow>
      gemm_s8x8s32_u8 cfg mayiuse ext transa transb offsetc (Some m) (Some n) (Some k) alpha
        A lda ao B ldb bo beta C ldc co w = Some (mkldnn_success, w)
      \<and> gemm_s8x8s32_s8 cfg mayiuse ext transa transb offsetc (Some m) (Some n) (Some k)
        alpha A lda ao B ldb bo beta C ldc co w = Some (mkldnn_success, w)
      \<and> mkldnn_gemm_s8u8s32 cfg mayiuse ext transa transb offsetc (Some m) (Some n) (Some k)
        alpha A lda ao B ldb bo beta C ldc co w = Some (mkldnn_success, w)
      \<and> mkldnn_gemm_s8s8s32 cfg mayiuse ext transa transb offsetc (Some m) (Some n) (Some k)
        alpha A lda ao B ldb bo beta C ldc co w = Some (mkldnn_success, w))
   \<and> (check_gemm_input transa transb M N K lda ldb ldc alpha beta False = mkldnn_success
      \<longrightarrow>
      mkldnn_gemm_bf16bf16f32 mayiuse ext transa transb M N K alpha A lda B ldb beta C ldc w =
        (if mayiuse avx512_core
         then invoke ext Gemm_driver
                \<lparr>a_transa = transa, a_transb = transb, a_offsetc = None,
                 a_M = M, a_N = N, a_K = K, a_alpha = alpha, a_A = A, a_lda = lda,
                 a_ao = None, a_B = B, a_ldb = ldb, a_bo = None, a_beta = beta,
                 a_C = C, a_ldc = ldc, a_co = None, a_force_jit_nocopy_gemm = False\<rparr> w
         else (mkldnn_unimplemented, w)))
   \<and> (check_gemm_input transa transb M N K lda ldb ldc alpha beta (bias \<noteq> None)
        = mkldnn_success \<longrightarrow>
      (\<exists>ks. calls (snd (extended_sgemm cfg mayiuse nthr ext transa transb M N K alpha A lda B
                            ldb beta C ldc bias force w))
              = calls w @
                (if USE_CBLAS cfg \<and> \<not> force then Cblas_sgemm
                 else if \<not> ARM_ARCH cfg \<and> mayiuse avx512_mic then Jit_avx512_common_gemm_f32
                 else if \<not> ARM_ARCH cfg \<and> mayiuse avx then Gemm_driver
                 else Ref_gemm) # ks))"
proof (intro conjI impI)
  assume "check_gemm_input transa transb M N K lda ldb ldc alpha beta False = mkldnn_success"
  then show "mkldnn_gemm_bf16bf16f32 mayiuse ext transa transb M N K alpha A lda B ldb beta C
               ldc w =
        (if mayiuse avx512_core
         then invoke ext Gemm_driver
                \<lparr>a_transa = transa, a_transb = transb, a_offsetc = None,
                 a_M = M, a_N = N, a_K = K, a_alpha = alpha, a_A = A, a_lda = lda,
                 a_ao = None, a_B = B, a_ldb = ldb, a_bo = None, a_beta = beta,
                 a_C = C, a_ldc = ldc, a_co = None, a_force_jit_nocopy_gemm = False\<rparr> w
         else (mkldnn_unimplemented, w))"
    unfolding mkldnn_gemm_bf16bf16f32_def Let_def by simp
next
  assume "check_gemm_input transa transb M N K lda ldb ldc alpha beta (bias \<noteq> None)
          = mkldnn_success"
  then show "\<exists>ks. calls (snd (extended_sgemm cfg mayiuse nthr ext transa transb M N K alpha A
                                lda B ldb beta C ldc bias force w))
              = calls w @
                (if USE_CBLAS cfg \<and> \<not> force then Cblas_sgemm
                 else if \<not> ARM_ARCH cfg \<and> mayiuse avx512_mic then Jit_avx512_common_gemm_f32
                 else if \<not> ARM_ARCH cfg \<and> mayiuse avx then Gemm_driver
                 else Ref_gemm) # ks"
    by (rule extended_sgemm_first_kernel)
qed (simp_all add: gemm_s8x8s32_u8_def gemm_s8x8s32_s8_def mkldnn_gemm_s8u8s32_def
      mkldnn_gemm_s8s8s32_def Let_def)

theorem degenerate_shapes_witness:
  "gemm_s8x8s32_u8 \<lparr>USE_CBLAS = False, USE_MKL_IGEMM = False, ARM_ARCH = False\<rparr>
     (\<lambda>isa. True) (\<lambda>b args (mm::unit). (mkldnn_success, mm))
     (Some CHR ''N'') (Some CHR ''N'') (Some CHR ''F'') (Some 2) (Some 0) (Some 2)
     (Some (Finite 1)) (Some 0) (Some 2) (Some 0) (Some 4) (Some 2) (Some 0)
     (Some (Finite 0)) (Some 8) (Some 2) (Some 12) \<lparr>mem = (), calls = []\<rparr>
   = Some (mkldnn_success, \<lparr>mem = (), calls = []\<rparr>)
   \<and> gemm_s8x8s32_s8 \<lparr>USE_CBLAS = False, USE_MKL_IGEMM = False, ARM_ARCH = False\<rparr>
     (\<lambda>isa. True) (\<lambda>b args (mm::unit). (mkldnn_success, mm))
     (Some CHR ''N'') (Some CHR ''N'') (Some CHR ''F'') (Some 2) (Some 0) (Some 2)
     (Some (Finite 1)) (Some 0) (Some 2) (Some 0) (Some 4) (Some 2) (Some 0)
     (Some (Finite 0)) (Some 8) (Some 2) (Some 12) \<lparr>mem = (), calls = []\<rparr>
   = Some (mkldnn_success, \<lparr>mem = (), calls = []\<rparr>)"
proof -
  have v: "check_gemm_x8x8x32_input (Some CHR ''F'') (Some CHR ''N'') (Some CHR ''N'')
             (Some 2) (Some 0) (Some 2) (Some 2) (Some 2) (Some 2)
             (Some (Finite 1)) (Some (Finite 0)) False = mkldnn_success \<and>
           ((2::int) = 0 \<or> (0::int) = 0 \<or> (2::int) = 0)"
    unfolding check_gemm_x8x8x32_input_eq check_gemm_input_nonnull by simp
  have all: "gemm_s8x8s32_u8 \<lparr>USE_CBLAS = False, USE_MKL_IGEMM = False, ARM_ARCH = False\<rparr>
     (\<lambda>isa. True) (\<lambda>b args (mm::unit). (mkldnn_success, mm))
     (Some CHR ''N'') (Some CHR ''N'') (Some CHR ''F'') (Some 2) (Some 0) (Some 2)
     (Some (Finite 1)) (Some 0) (Some 2) (Some 0) (Some 4) (Some 2) (Some 0)
     (Some (Finite 0)) (Some 8) (Some 2) (Some 12) \<lparr>mem = (), calls = []\<rparr>
   = Some (mkldnn_success, \<lparr>mem = (), calls = []\<rparr>)
   \<and> gemm_s8x8s32_s8 \<lparr>USE_CBLAS = False, USE_MKL_IGEMM = False, ARM_ARCH = False\<rparr>
     (\<lambda>isa. True) (\<lambda>b args (mm::unit). (mkldnn_success, mm))
     (Some CHR ''N'') (Some CHR ''N'') (Some CHR ''F'') (Some 2) (Some 0) (Some 2)
     (Some (Finite 1)) (Some 0) (Some 2) (Some 0) (Some 4) (Some 2) (Some 0)
     (Some (Finite 0)) (Some 8) (Some 2) (Some 12) \<lparr>mem = (), calls = []\<rparr>
   = Some (mkldnn_success, \<lparr>mem = (), calls = []\<rparr>)
   \<and> mkldnn_gemm_s8u8s32 \<lparr>USE_CBLAS = False, USE_MKL_IGEMM = False, ARM_ARCH = False\<rparr>
     (\<lambda>isa. True) (\<lambda>b args (mm::unit). (mkldnn_success, mm))
     (Some CHR ''N'') (Some CHR ''N'') (Some CHR ''F'') (Some 2) (Some 0) (Some 2)
     (Some (Finite 1)) (Some 0) (Some 2) (Some 0) (Some 4) (Some 2) (Some 0)
     (Some (Finite 0)) (Some 8) (Some 2) (Some 12) \<lparr>mem = (), calls = []\<rparr>
   = Some (mkldnn_success, \<lparr>mem = (), calls = []\<rparr>)
   \<and> mkldnn_gemm_s8s8s32 \<lparr>USE_CBLAS = False, USE_MKL_IGEMM = False, ARM_ARCH = False\<rparr>
     (\<lambda>isa. True) (\<lambda>b args (mm::unit). (mkldnn_success, mm))
     (Some CHR ''N'') (Some CHR ''N'') (Some CHR ''F'') (Some 2) (Some 0) (Some 2)
     (Some (Finite 1)) (Some 0) (Some 2) (Some 0) (Some 4) (Some 2) (Some 0)
     (Some (Finite 0)) (Some 8) (Some 2) (Some 12) \<lparr>mem = (), calls = []\<rparr>
   = Some (mkldnn_success, \<lparr>mem = (), calls = []\<rparr>)"
    by (rule degenerate_shapes [THEN conjunct1, THEN mp, OF v])
  then show ?thesis by blast
qed

theorem degenerate_bf16_counterexample:
  "mkldnn_gemm_bf16bf16f32 (\<lambda>isa. False) (\<lambda>b args (mm::unit). (mkldnn_success, mm))
     (Some CHR ''N'') (Some CHR ''N'') (Some 0) (Some 1) (Some 1) (Some (Finite 1))
     (Some 0) (Some 1) (Some 4) (Some 1) (Some (Finite 0)) (Some 8) (Some 1)
     \<lparr>mem = (), calls = []\<rparr>
   = (mkldnn_unimplemented, \<lparr>mem = (), calls = []\<rparr>)
   \<and> check_gemm_input (Some CHR ''N'') (Some CHR ''N'') (Some 0) (Some 1) (Some 1)
       (Some 1) (Some 1) (Some 1) (Some (Finite 1)) (Some (Finite 0)) False = mkldnn_success"
  by (simp add: mkldnn_gemm_bf16bf16f32_def check_gemm_input_nonnull)

section \<open>Bias with a nonzero beta\<close>

text \<open>
  C5 (amended). On \<^verbatim>\<open>extended_sgemm\<close>, the entry point that takes a bias
  (\<^verbatim>\<open>mkldnn_sgemm\<close> passes none), a request whose ten scalar-parameter pointers are all
  non-null, with a non-null bias and \<open>beta \<noteq> 0\<close>, is answered Unimplemented, whatever
  its flags, extents and leading dimensions are; no kernel is called and the memory is
  unchanged.
\<close>

theorem bias_with_nonzero_beta_unimplemented:
  assumes "float_ne_zero be"
  shows "extended_sgemm cfg mayiuse nthr ext (Some ta) (Some tb) (Some m) (Some n) (Some k)
           (Some al) A (Some la) B (Some lb) (Some be) C (Some lc) (Some bias) force w
         = (mkldnn_unimplemented, w)"
proof -
  have "check_gemm_input (Some ta) (Some tb) (Some m) (Some n) (Some k) (Some la) (Some lb)
          (Some lc) (Some al) (Some be) (Some bias \<noteq> None) = mkldnn_unimplemented"
    unfolding check_gemm_input_nonnull using assms by simp
  then show ?thesis
    by (rule extended_sgemm_rejected) simp
qed

theorem bias_with_nonzero_beta_unimplemented_witness:
  "float_ne_zero (Finite 2)
   \<and> extended_sgemm \<lparr>USE_CBLAS = True, USE_MKL_IGEMM = False, ARM_ARCH = False\<rparr>
     (\<lambda>isa. True) 4 (\<lambda>b args (mm::unit). (mkldnn_success, mm))
     (Some CHR ''N'') (Some CHR ''T'') (Some 2) (Some 3) (Some 4) (Some (Finite 1))
     (Some 0) (Some 2) (Some 4) (Some 3) (Some (Finite 2)) (Some 8) (Some 2) (Some 12) False
     \<lparr>mem = (), calls = []\<rparr>
   = (mkldnn_unimplemented, \<lparr>mem = (), calls = []\<rparr>)"
proof -
  have h: "float_ne_zero (Finite 2)" by simp
  show ?thesis
    using h bias_with_nonzero_beta_unimplemented [OF h] by blast
qed

theorem bias_with_null_pointer_counterexample:
  "float_ne_zero (Finite 2)
   \<and> extended_sgemm \<lparr>USE_CBLAS = True, USE_MKL_IGEMM = False, ARM_ARCH = False\<rparr>
     (\<lambda>isa. True) 4 (\<lambda>b args (mm::unit). (mkldnn_success, mm))
     None (Some CHR ''T'') (Some 2) (Some 3) (Some 4) (Some (Finite 1))
     (Some 0) (Some 2) (Some 4) (Some 3) (Some (Finite 2)) (Some 8) (Some 2) (Some 12) False
     \<lparr>mem = (), calls = []\<rparr>
   = (mkldnn_invalid_arguments, \<lparr>mem = (), calls = []\<rparr>)"
proof -
  have "check_gemm_input None (Some CHR ''T'') (Some 2) (Some 3) (Some 4) (Some 2) (Some 3)
          (Some 2) (Some (Finite 1)) (Some (Finite 2)) (Some (12::nat) \<noteq> None)
        = mkldnn_invalid_arguments"
    by (rule check_gemm_input_null) simp
  then show ?thesis
    by (simp add: extended_sgemm_rejected)
qed

section \<open>Null pointers\<close>

text \<open>
  C6 (amended). On every entry point, a request in which one of the scalar-parameter
  pointers \<^verbatim>\<open>transa\<close>, \<^verbatim>\<open>transb\<close>, \<^verbatim>\<open>M\<close>, \<^verbatim>\<open>N\<close>, \<^verbatim>\<open>K\<close>, \<^verbatim>\<open>lda\<close>, \<^verbatim>\<open>ldb\<close>, \<^verbatim>\<open>ldc\<close>,
  \<^verbatim>\<open>alpha\<close>, \<^verbatim>\<open>beta\<close> (and \<^verbatim>\<open>offsetc\<close> on the integer entry points) is null is answered
  InvalidArguments; no kernel is called and the memory is unchanged. The data pointers
  \<^verbatim>\<open>A\<close>, \<^verbatim>\<open>B\<close> and \<^verbatim>\<open>C\<close> are not tested: they are handed to the kernel as they are.
\<close>

theorem null_scalar_pointer_invalid_arguments:
  fixes w :: "'m world"
  shows
  "(transa = None \<or> transb = None \<or> M = None \<or> N = None \<or> K = None \<or> lda = None
     \<or> ldb = None \<or> ldc = None \<or> alpha = None \<or> beta = None \<longrightarrow>
      extended_sgemm cfg mayiuse nthr ext transa transb M N K alpha A lda B ldb beta C ldc
        bias force w = (mkldnn_invalid_arguments, w)
      \<and> mkldnn_sgemm cfg mayiuse nthr ext transa transb M N K alpha A lda B ldb beta C ldc w
        = (mkldnn_invalid_arguments, w)
      \<and> mkldnn_gemm_bf16bf16f32 mayiuse ext transa transb M N K alpha A lda B ldb beta C
        ldc w = (mkldnn_invalid_arguments, w))
   \<and> (offsetc = None \<or> transa = None \<or> transb = None \<or> M = None \<or> N = None \<or> K = None
      \<or> lda = None \<or> ldb = None \<or> ldc = None \<or> alpha = None \<or> beta = None \<longrightarrow>
      gemm_s8x8s32_u8 cfg mayiuse ext transa transb offsetc M N K alpha A lda ao B ldb bo
        beta C ldc co w = Some (mkldnn_invalid_arguments, w)
      \<and> gemm_s8x8s32_s8 cfg mayiuse ext transa transb offsetc M N K alpha A lda ao B ldb bo
        beta C ldc co w = Some (mkldnn_invalid_arguments, w)
      \<and> mkldnn_gemm_s8u8s32 cfg mayiuse ext transa transb offsetc M N K alpha A lda ao B ldb
        bo beta C ldc co w = Some (mkldnn_invalid_arguments, w)
      \<and> mkldnn_gemm_s8s8s32 cfg mayiuse ext transa transb offsetc M N K alpha A lda ao B ldb
        bo beta C ldc co w = Some (mkldnn_invalid_arguments, w))"
proof (intro conjI impI)
  assume null: "transa = None \<or> transb = None \<or> M = None \<or> N = None \<or> K = None
     \<or> lda = None \<or> ldb = None \<or> ldc = None \<or> alpha = None \<or> beta = None"
  have c: "check_gemm_input transa transb M N K lda ldb ldc alpha beta wb
           = mkldnn_invalid_arguments" for wb
    using null by (rule check_gemm_input_null)
  show "extended_sgemm cfg mayiuse nthr ext transa transb M N K alpha A lda B ldb beta C ldc
        bias force w = (mkldnn_invalid_arguments, w)"
    by (rule extended_sgemm_rejected [OF c]) simp
  show "mkldnn_sgemm cfg mayiuse nthr ext transa transb M N K alpha A lda B ldb beta C ldc w
        = (mkldnn_invalid_arguments, w)"
    unfolding mkldnn_sgemm_def by (rule extended_sgemm_rejected [OF c]) simp
  show "mkldnn_gemm_bf16bf16f32 mayiuse ext transa transb M N K alpha A lda B ldb beta C
        ldc w = (mkldnn_invalid_arguments, w)"
    by (rule mkldnn_gemm_bf16bf16f32_rejected [OF c]) simp
next
  assume null: "offsetc = None \<or> transa = None \<or> transb = None \<or> M = None \<or> N = None
      \<or> K = None \<or> lda = None \<or> ldb = None \<or> ldc = None \<or> alpha = None \<or> beta = None"
  have c: "check_gemm_x8x8x32_input offsetc transa transb M N K lda ldb ldc alpha beta False
           = mkldnn_invalid_arguments"
    using null by (rule check_x8_null)
  show "gemm_s8x8s32_u8 cfg mayiuse ext transa transb offsetc M N K alpha A lda ao B ldb bo
        beta C ldc co w = Some (mkldnn_invalid_arguments, w)"
    by (rule gemm_s8x8s32_u8_rejected [OF c]) simp
  show "gemm_s8x8s32_s8 cfg mayiuse ext transa transb offsetc M N K alpha A lda ao B ldb bo
        beta C ldc co w = Some (mkldnn_invalid_arguments, w)"
    by (rule gemm_s8x8s32_s8_rejected [OF c]) simp
  show "mkldnn_gemm_s8u8s32 cfg mayiuse ext transa transb offsetc M N K alpha A lda ao B ldb
        bo beta C ldc co w = Some (mkldnn_invalid_arguments, w)"
    unfolding mkldnn_gemm_s8u8s32_def by (rule gemm_s8x8s32_u8_rejected [OF c]) simp
  show "mkldnn_gemm_s8s8s32 cfg mayiuse ext transa transb offsetc M N K alpha A lda ao B ldb
        bo beta C ldc co w = Some (mkldnn_invalid_arguments, w)"
    unfolding mkldnn_gemm_s8s8s32_def by (rule gemm_s8x8s32_s8_rejected [OF c]) simp
qed

theorem null_scalar_pointer_invalid_arguments_witness:
  "extended_sgemm \<lparr>USE_CBLAS = True, USE_MKL_IGEMM = False, ARM_ARCH = False\<rparr>
     (\<lambda>isa. True) 4 (\<lambda>b args (mm::unit). (mkldnn_success, mm))
     (Some CHR ''N'') (Some CHR ''T'') (Some 2) None (Some 4) (Some (Finite 1))
     (Some 0) (Some 2) (Some 4) (Some 3) (Some (Finite 2)) (Some 8) (Some 2) None False
     \<lparr>mem = (), calls = []\<rparr>
   = (mkldnn_invalid_arguments, \<lparr>mem = (), calls = []\<rparr>)
   \<and> gemm_s8x8s32_s8 \<lparr>USE_CBLAS = False, USE_MKL_IGEMM = False, ARM_ARCH = False\<rparr>
     (\<lambda>isa. True) (\<lambda>b args (mm::unit). (mkldnn_success, mm))
     (Some CHR ''N'') (Some CHR ''N'') None (Some 2) (Some 2) (Some 2)
     (Some (Finite 1)) (Some 0) (Some 2) (Some 0) (Some 4) (Some 2) (Some 0)
     (Some (Finite 0)) (Some 8) (Some 2) (Some 12) \<lparr>mem = (), calls = []\<rparr>
   = Some (mkldnn_invalid_arguments, \<lparr>mem = (), calls = []\<rparr>)"
proof -
  have n1: "Some CHR ''N'' = None \<or> Some CHR ''T'' = None \<or> Some (2::int) = None
     \<or> (None :: int option) = None \<or> Some (4::int) = None \<or> Some (2::int) = None
     \<or> Some (3::int) = None \<or> Some (2::int) = None \<or> Some (Finite 1) = None
     \<or> Some (Finite 2) = None"
    by simp
  have n2: "(None :: char option) = None \<or> Some CHR ''N'' = None \<or> Some CHR ''N'' = None
     \<or> Some (2::int) = None \<or> Some (2::int) = None \<or> Some (2::int) = None
     \<or> Some (2::int) = None \<or> Some (2::int) = None \<or> Some (2::int) = None
     \<or> Some (Finite 1) = None \<or> Some (Finite 0) = None"
    by simp
  show ?thesis
    using null_scalar_pointer_invalid_arguments [THEN conjunct1, THEN mp, OF n1, THEN conjunct1]
      null_scalar_pointer_invalid_arguments [THEN conjunct2, THEN mp, OF n2, THEN conjunct2,
        THEN conjunct1]
    by blast
qed

theorem null_data_pointers_counterexample:
  "extended_sgemm \<lparr>USE_CBLAS = False, USE_MKL_IGEMM = False, ARM_ARCH = True\<rparr>
     (\<lambda>isa. False) 1 (\<lambda>b args (mm::unit). (mkldnn_success, mm))
     (Some CHR ''N'') (Some CHR ''N'') (Some 1) (Some 1) (Some 1) (Some (Finite 1))
     None (Some 1) None (Some 1) (Some (Finite 0)) None (Some 1) None False
     \<lparr>mem = (), calls = []\<rparr>
   = (mkldnn_success, \<lparr>mem = (), calls = [Ref_gemm]\<rparr>)"
  by (simp add: extended_sgemm_def check_gemm_input_nonnull invoke_def)


section \<open>Addresses of the kernel emitter\<close>

lemma scast_ucast_small:
  fixes w :: u64
  assumes "uint w \<le> INT_MAX"
  shows "(scast (ucast w :: 32 word) :: u64) = w"
proof -
  have "- (2 ^ 31) \<le> (0::int)" by simp
  also have "0 \<le> uint w" by simp
  finally have lower: "- (2 ^ 31) \<le> uint w" .
  have upper: "uint w < 2 ^ 31"
    using assms by (simp add: INT_MAX_def)
  have "sint (ucast w :: 32 word) = signed_take_bit 31 (uint w)"
    unfolding ucast_eq sint_sbintrunc' by simp
  also have "\<dots> = uint w"
    using lower upper by (rule signed_take_bit_int_eq_self)
  finally have "sint (ucast w :: 32 word) = uint w" .
  then show ?thesis
    unfolding scast_eq by simp
qed

lemma sint_ucast_64_32:
  fixes w :: u64
  shows "sint (ucast w :: 32 word) = signed_take_bit 31 (uint w)"
  unfolding ucast_eq sint_sbintrunc' by simp

lemma scast_ucast_word_of_int:
  fixes i :: int
  assumes "- (2 ^ 31) \<le> i" "i < 2 ^ 31"
  shows "(scast (ucast (word_of_int i :: u64) :: 32 word) :: u64) = word_of_int i"
proof -
  have "sint (ucast (word_of_int i :: u64) :: 32 word)
        = signed_take_bit 31 (take_bit 64 i)"
    unfolding sint_ucast_64_32 uint_word_of_int_eq by simp
  also have "\<dots> = signed_take_bit 31 i"
    by (simp only: signed_take_bit_take_bit) simp
  also have "\<dots> = i"
    using assms by (rule signed_take_bit_int_eq_self)
  finally have "sint (ucast (word_of_int i :: u64) :: 32 word) = i" .
  then show ?thesis
    unfolding scast_eq by (simp only:)
qed

lemma exec_Nil: "exec [] s = s"
  by (simp add: exec_def)

lemma exec_Cons: "exec (i # code) s = exec code (step i s)"
  by (simp add: exec_def)

text \<open>
  C9. For every value of the base register and every byte offset, with a scratch register
  that is not the base register: the address \<^verbatim>\<open>make_safe_addr\<close> returns, read after the
  code it has emitted, is \<open>base + offt\<close>, whichever of its two forms was taken. For
  \<open>offt \<le> INT_MAX\<close> it emits nothing and returns the direct-immediate form, which denotes
  \<open>base + offt\<close>; for \<open>offt > INT_MAX\<close>, where the 32-bit displacement of the direct form
  could not hold the offset, it first loads \<open>offt\<close> into the scratch register and returns
  \<^verbatim>\<open>[base + tmp]\<close>, which denotes the same \<open>base + offt\<close>. \<^verbatim>\<open>safe_add\<close> and \<^verbatim>\<open>safe_sub\<close>
  emit one \<^verbatim>\<open>add\<close> or \<^verbatim>\<open>sub\<close> with a 32-bit immediate for \<open>offt \<le> INT_MAX\<close>, and a load
  of the scratch register followed by a register \<^verbatim>\<open>add\<close> or \<^verbatim>\<open>sub\<close> for
  \<open>offt > INT_MAX\<close>; they leave \<open>base + offt\<close>, respectively \<open>base - offt\<close>, in the base
  register, whichever form was taken. No register but the scratch register (and, for
  \<^verbatim>\<open>safe_add\<close> and \<^verbatim>\<open>safe_sub\<close>, the base register) changes, so the form taken shows
  nowhere else.
\<close>

theorem safe_forms_agree:
  assumes distinct: "tmp \<noteq> base"
  shows "effective_address (snd (make_safe_addr base offt tmp bcast))
           (exec (fst (make_safe_addr base offt tmp bcast)) s)
         = s base + offt
       \<and> (uint offt \<le> INT_MAX \<longrightarrow>
            make_safe_addr base offt tmp bcast = ([], direct_addr base offt bcast)
            \<and> effective_address (direct_addr base offt bcast) s = s base + offt
            \<and> safe_add base offt tmp = [Add_imm base (ucast offt)]
            \<and> safe_sub base offt tmp = [Sub_imm base (ucast offt)])
       \<and> (uint offt > INT_MAX \<longrightarrow>
            make_safe_addr base offt tmp bcast
            = ([Mov_imm tmp offt],
               \<lparr>ad_base = base, ad_index = Some tmp, ad_scale = 1, ad_disp = 0,
                ad_bit = 0, ad_broadcast = bcast\<rparr>)
            \<and> safe_add base offt tmp = [Mov_imm tmp offt, Add_reg base tmp]
            \<and> safe_sub base offt tmp = [Mov_imm tmp offt, Sub_reg base tmp])
       \<and> exec (safe_add base offt tmp) s base = s base + offt
       \<and> exec (safe_sub base offt tmp) s base = s base - offt
       \<and> (\<forall>r. r \<noteq> tmp \<longrightarrow>
             exec (fst (make_safe_addr base offt tmp bcast)) s r = s r)
       \<and> (\<forall>r. r \<noteq> tmp \<and> r \<noteq> base \<longrightarrow>
             exec (safe_add base offt tmp) s r = s r
             \<and> exec (safe_sub base offt tmp) s r = s r)"
proof (cases "uint offt > INT_MAX")
  case True
  then show ?thesis
    using distinct
    by (simp add: make_safe_addr_def safe_add_def safe_sub_def direct_addr_def
        effective_address_def exec_Nil exec_Cons)
next
  case False
  then have small: "uint offt \<le> INT_MAX" by simp
  show ?thesis
    using False distinct
    by (simp add: make_safe_addr_def safe_add_def safe_sub_def direct_addr_def
        effective_address_def exec_Nil exec_Cons scast_ucast_small [OF small])
qed

theorem safe_forms_agree_witness:
  "R10 \<noteq> RAX
   \<and> effective_address (snd (make_safe_addr RAX 0x80000000 R10 False))
       (exec (fst (make_safe_addr RAX 0x80000000 R10 False)) (\<lambda>r. 5)) = 0x80000005
   \<and> effective_address (direct_addr RAX 0x80000000 False) (\<lambda>r. 5) = 0xFFFFFFFF80000005
   \<and> effective_address (snd (make_safe_addr RAX 0x100000000 R10 False))
       (exec (fst (make_safe_addr RAX 0x100000000 R10 False)) (\<lambda>r. 5)) = 0x100000005
   \<and> effective_address (snd (make_safe_addr RAX 0x10 R10 False))
       (exec (fst (make_safe_addr RAX 0x10 R10 False)) (\<lambda>r. 5)) = 0x15
   \<and> exec (safe_add RAX 0x100000000 R10) (\<lambda>r. 5) RAX = 0x100000005
   \<and> exec (safe_sub RAX 0x100000000 R10) (\<lambda>r. 5) RAX = 0xFFFFFFFF00000005
   \<and> exec (safe_add RAX 0x10 R10) (\<lambda>r. 5) RAX = 0x15"
proof -
  have h: "R10 \<noteq> RAX" by simp
  have d: "effective_address (direct_addr RAX 0x80000000 False) (\<lambda>r. 5) = 0xFFFFFFFF80000005"
    by (simp add: effective_address_def direct_addr_def)
  have a1: "effective_address (snd (make_safe_addr RAX 0x80000000 R10 False))
       (exec (fst (make_safe_addr RAX 0x80000000 R10 False)) (\<lambda>r. 5)) = 0x80000005"
    using safe_forms_agree [OF h, of "0x80000000" False "\<lambda>r. 5", THEN conjunct1] by simp
  have a2: "effective_address (snd (make_safe_addr RAX 0x100000000 R10 False))
       (exec (fst (make_safe_addr RAX 0x100000000 R10 False)) (\<lambda>r. 5)) = 0x100000005"
    using safe_forms_agree [OF h, of "0x100000000" False "\<lambda>r. 5", THEN conjunct1] by simp
  have a3: "effective_address (snd (make_safe_addr RAX 0x10 R10 False))
       (exec (fst (make_safe_addr RAX 0x10 R10 False)) (\<lambda>r. 5)) = 0x15"
    using safe_forms_agree [OF h, of "0x10" False "\<lambda>r. 5", THEN conjunct1] by simp
  note t = safe_forms_agree [OF h, of "0x100000000" False "\<lambda>r. 5",
      THEN conjunct2, THEN conjunct2, THEN conjunct2]
  have b1: "exec (safe_add RAX 0x100000000 R10) (\<lambda>r. 5) RAX = 0x100000005"
    using t [THEN conjunct1] by simp
  have b2: "exec (safe_sub RAX 0x100000000 R10) (\<lambda>r. 5) RAX = 0xFFFFFFFF00000005"
    using t [THEN conjunct2, THEN conjunct1] by simp
  have b3: "exec (safe_add RAX 0x10 R10) (\<lambda>r. 5) RAX = 0x15"
    using safe_forms_agree [OF h, of "0x10" False "\<lambda>r. 5",
      THEN conjunct2, THEN conjunct2, THEN conjunct2, THEN conjunct1] by simp
  show ?thesis
    using h d a1 a2 a3 b1 b2 b3 by (intro conjI)
qed

text \<open>
  C10. When register \<^verbatim>\<open>rbp\<close> (\<^verbatim>\<open>reg_EVEX_max_8b_offt\<close>) holds \<open>2 * EVEX_max_8b_offt =
  0x400\<close>, as the end of \<^verbatim>\<open>preamble\<close> leaves it when \<^verbatim>\<open>avx512_common\<close> is present,
  \<^verbatim>\<open>EVEX_compress_addr\<close> returns, for every offset \<open>0 \<le> offt \<le> INT_MAX\<close>, an address
  that evaluates to exactly \<open>base + offt\<close>: for \<open>offt\<close> in \<open>[0x200, 0x600)\<close> the
  displacement is \<open>offt - 0x400\<close> and \<^verbatim>\<open>rbp\<close> is added with scale 1, for \<open>offt\<close> in
  \<open>[0x600, 0xA00)\<close> the displacement is \<open>offt - 0x800\<close> and \<^verbatim>\<open>rbp\<close> is added with scale
  2, and outside both bands the displacement is \<open>offt\<close> itself.
\<close>

theorem EVEX_compress_addr_exact:
  assumes rbp: "s reg_EVEX_max_8b_offt = 0x400"
    and range: "0 \<le> offt" "offt \<le> INT_MAX"
  shows "EVEX_compress_addr base offt bcast =
           Some (if 0x200 \<le> offt \<and> offt < 0x600
                 then \<lparr>ad_base = base, ad_index = Some reg_EVEX_max_8b_offt, ad_scale = 1,
                       ad_disp = word_of_int (offt - 0x400), ad_bit = 512,
                       ad_broadcast = bcast\<rparr>
                 else if 0x600 \<le> offt \<and> offt < 0xA00
                 then \<lparr>ad_base = base, ad_index = Some reg_EVEX_max_8b_offt, ad_scale = 2,
                       ad_disp = word_of_int (offt - 0x800), ad_bit = 512,
                       ad_broadcast = bcast\<rparr>
                 else \<lparr>ad_base = base, ad_index = None, ad_scale = 0,
                       ad_disp = word_of_int offt, ad_bit = 512, ad_broadcast = bcast\<rparr>)
         \<and> map_option (\<lambda>a. effective_address a s) (EVEX_compress_addr base offt bcast)
           = Some (s base + word_of_int offt)
         \<and> (if mayiuse avx512_common
            then exec (preamble_tail mayiuse) s0 reg_EVEX_max_8b_offt = 0x400
            else preamble_tail mayiuse = [])"
proof -
  have first: "EVEX_compress_addr base offt bcast =
           Some (if 0x200 \<le> offt \<and> offt < 0x600
                 then \<lparr>ad_base = base, ad_index = Some reg_EVEX_max_8b_offt, ad_scale = 1,
                       ad_disp = word_of_int (offt - 0x400), ad_bit = 512,
                       ad_broadcast = bcast\<rparr>
                 else if 0x600 \<le> offt \<and> offt < 0xA00
                 then \<lparr>ad_base = base, ad_index = Some reg_EVEX_max_8b_offt, ad_scale = 2,
                       ad_disp = word_of_int (offt - 0x800), ad_bit = 512,
                       ad_broadcast = bcast\<rparr>
                 else \<lparr>ad_base = base, ad_index = None, ad_scale = 0,
                       ad_disp = word_of_int offt, ad_bit = 512, ad_broadcast = bcast\<rparr>)"
    using range by (simp add: EVEX_compress_addr_def EVEX_max_8b_offt_def Let_def)
  have d0: "(scast (ucast (word_of_int offt :: u64) :: 32 word) :: u64) = word_of_int offt"
    using range by (intro scast_ucast_word_of_int) (simp_all add: INT_MAX_def)
  have d1: "0x200 \<le> offt \<Longrightarrow> offt < 0x600 \<Longrightarrow>
      (scast (ucast (word_of_int (offt - 0x400) :: u64) :: 32 word) :: u64)
      = word_of_int (offt - 0x400)"
    by (intro scast_ucast_word_of_int) simp_all
  have d2: "0x600 \<le> offt \<Longrightarrow> offt < 0xA00 \<Longrightarrow>
      (scast (ucast (word_of_int (offt - 0x800) :: u64) :: 32 word) :: u64)
      = word_of_int (offt - 0x800)"
    by (intro scast_ucast_word_of_int) simp_all
  have second: "map_option (\<lambda>a. effective_address a s) (EVEX_compress_addr base offt bcast)
           = Some (s base + word_of_int offt)"
    unfolding first using rbp d0 d1 d2
    by (simp add: effective_address_def)
  have third: "if mayiuse avx512_common
            then exec (preamble_tail mayiuse) s0 reg_EVEX_max_8b_offt = 0x400
            else preamble_tail mayiuse = []"
    by (simp add: preamble_tail_def exec_Cons exec_Nil EVEX_max_8b_offt_def)
  show ?thesis
    using first second third by (intro conjI)
qed

theorem EVEX_compress_addr_exact_witness:
  "map_option (\<lambda>a. effective_address a ((\<lambda>r. 0x1000)(RBP := 0x400)))
     (EVEX_compress_addr RAX 0x300 False) = Some 0x1300
   \<and> map_option (\<lambda>a. effective_address a ((\<lambda>r. 0x1000)(RBP := 0x400)))
     (EVEX_compress_addr RAX 0x700 False) = Some 0x1700
   \<and> map_option (\<lambda>a. effective_address a ((\<lambda>r. 0x1000)(RBP := 0x400)))
     (EVEX_compress_addr RAX 0x100 False) = Some 0x1100
   \<and> map_option ad_disp (EVEX_compress_addr RAX 0x300 False) = Some (- 0x100)
   \<and> map_option ad_scale (EVEX_compress_addr RAX 0x300 False) = Some 1"
proof -
  have rbp: "((\<lambda>r. 0x1000)(RBP := 0x400)) reg_EVEX_max_8b_offt = (0x400 :: u64)"
    by (simp add: reg_EVEX_max_8b_offt_def)
  have r1: "(0::int) \<le> 0x300" "(0x300::int) \<le> INT_MAX"
    and r2: "(0::int) \<le> 0x700" "(0x700::int) \<le> INT_MAX"
    and r3: "(0::int) \<le> 0x100" "(0x100::int) \<le> INT_MAX"
    by (simp_all add: INT_MAX_def)
  note t1 = EVEX_compress_addr_exact [where s = "(\<lambda>r. 0x1000)(RBP := 0x400)"
        and offt = "0x300" and base = RAX and bcast = False and mayiuse = "\<lambda>isa. True"
        and ?s0.0 = "\<lambda>r. 0", OF rbp r1]
  note t2 = EVEX_compress_addr_exact [where s = "(\<lambda>r. 0x1000)(RBP := 0x400)"
        and offt = "0x700" and base = RAX and bcast = False and mayiuse = "\<lambda>isa. True"
        and ?s0.0 = "\<lambda>r. 0", OF rbp r2]
  note t3 = EVEX_compress_addr_exact [where s = "(\<lambda>r. 0x1000)(RBP := 0x400)"
        and offt = "0x100" and base = RAX and bcast = False and mayiuse = "\<lambda>isa. True"
        and ?s0.0 = "\<lambda>r. 0", OF rbp r3]
  have e1: "map_option (\<lambda>a. effective_address a ((\<lambda>r. 0x1000)(RBP := 0x400)))
     (EVEX_compress_addr RAX 0x300 False) = Some 0x1300"
    using t1 [THEN conjunct2, THEN conjunct1] by simp
  have e2: "map_option (\<lambda>a. effective_address a ((\<lambda>r. 0x1000)(RBP := 0x400)))
     (EVEX_compress_addr RAX 0x700 False) = Some 0x1700"
    using t2 [THEN conjunct2, THEN conjunct1] by simp
  have e3: "map_option (\<lambda>a. effective_address a ((\<lambda>r. 0x1000)(RBP := 0x400)))
     (EVEX_compress_addr RAX 0x100 False) = Some 0x1100"
    using t3 [THEN conjunct2, THEN conjunct1] by simp
  have e4: "map_option ad_disp (EVEX_compress_addr RAX 0x300 False) = Some (- 0x100)
     \<and> map_option ad_scale (EVEX_compress_addr RAX 0x300 False) = Some 1"
    using t1 [THEN conjunct1] by simp
  show ?thesis
    using e1 e2 e3 e4 by (intro conjI) simp_all
qed


section \<open>The partition of balance211\<close>

lemma balance211_fst: "fst (balance211 n team tid) = tid * (n div team) + min tid (n mod team)"
  by (simp add: balance211_def Let_def)

lemma balance211_snd: "snd (balance211 n team tid) = fst (balance211 n team (Suc tid))"
  by (simp add: balance211_def Let_def min_def)

lemma balance211_size:
  "snd (balance211 n team tid) - fst (balance211 n team tid)
   = n div team + (if tid < n mod team then 1 else 0)"
  by (simp add: balance211_def Let_def)

lemma balance211_le: "fst (balance211 n team tid) \<le> snd (balance211 n team tid)"
  by (simp add: balance211_def Let_def)

lemma balance211_start_0: "fst (balance211 n team 0) = 0"
  by (simp add: balance211_fst)

lemma balance211_start_team:
  assumes "1 \<le> team"
  shows "fst (balance211 n team team) = n"
proof -
  have "n mod team < team" using assms by simp
  then have "min team (n mod team) = n mod team" by simp
  then show ?thesis
    unfolding balance211_fst by (simp add: mult.commute)
qed

lemma balance211_start_mono:
  "i \<le> j \<Longrightarrow> fst (balance211 n team i) \<le> fst (balance211 n team j)"
  unfolding balance211_fst by (intro add_mono mult_le_mono1 min.mono) simp_all

lemma upt_chain_concat:
  fixes f :: "nat \<Rightarrow> nat"
  assumes "\<And>i. i < k \<Longrightarrow> f i \<le> f (Suc i)"
  shows "concat (map (\<lambda>i. [f i..<f (Suc i)]) [0..<k]) = [f 0..<f k]"
  using assms
proof (induction k)
  case 0
  then show ?case by simp
next
  case (Suc k)
  have mono: "f 0 \<le> f k"
    using Suc.prems by (induction k) (auto intro: order_trans less_SucI)
  have "concat (map (\<lambda>i. [f i..<f (Suc i)]) [0..<Suc k])
        = [f 0..<f k] @ [f k..<f (Suc k)]"
    using Suc by simp
  also have "\<dots> = [f 0..<f (Suc k)]"
    using upt_add_eq_append [OF mono, of "f (Suc k) - f k"] Suc.prems [of k] by simp
  finally show ?case .
qed

lemma balance211_ranges_concat:
  assumes "1 \<le> team"
  shows "concat (map (\<lambda>i. [fst (balance211 n team i)..<snd (balance211 n team i)]) [0..<team])
         = [0..<n]"
proof -
  have "concat (map (\<lambda>i. [fst (balance211 n team i)..<fst (balance211 n team (Suc i))])
          [0..<team])
        = [fst (balance211 n team 0)..<fst (balance211 n team team)]"
    by (rule upt_chain_concat) (simp add: balance211_start_mono)
  then show ?thesis
    by (simp add: balance211_snd balance211_start_0 balance211_start_team [OF assms])
qed

lemma div_up_eq:
  fixes n work :: nat
  assumes "1 \<le> n"
  shows "(work + n - 1) div n = work div n + (if work mod n = 0 then 0 else 1)"
proof -
  define q where "q = work div n"
  define r where "r = work mod n"
  have w: "work = n * q + r"
    unfolding q_def r_def by simp
  have r: "r < n"
    unfolding r_def using assms by simp
  show ?thesis
  proof (cases "r = 0")
    case True
    have "(work + n - 1) div n = q"
    proof (rule div_nat_eqI)
      show "n * q \<le> work + n - 1" using w assms by simp
      show "work + n - 1 < n * Suc q" using w True assms by simp
    qed
    then show ?thesis using True unfolding q_def r_def by simp
  next
    case False
    have "(work + n - 1) div n = Suc q"
    proof (rule div_nat_eqI)
      show "n * Suc q \<le> work + n - 1" using w False by simp
      show "work + n - 1 < n * Suc (Suc q)" using w r by simp
    qed
    then show ?thesis using False unfolding q_def r_def by simp
  qed
qed

lemma balance211_disjoint:
  assumes "i \<noteq> j"
  shows "{fst (balance211 work n i)..<snd (balance211 work n i)}
         \<inter> {fst (balance211 work n j)..<snd (balance211 work n j)} = {}"
proof -
  have one: "{fst (balance211 work n a)..<snd (balance211 work n a)}
         \<inter> {fst (balance211 work n b)..<snd (balance211 work n b)} = {}" if "a < b" for a b
  proof -
    have "snd (balance211 work n a) \<le> fst (balance211 work n b)"
      unfolding balance211_snd using that by (intro balance211_start_mono) simp
    then show ?thesis by auto
  qed
  show ?thesis
    using assms one [of i j] one [of j i] by (cases "i < j") (auto simp: Int_commute)
qed

text \<open>
  C7. For every amount of work and every team of \<open>n \<ge> 1\<close> workers, the \<open>n\<close> half-open
  ranges \<open>balance211 work n i\<close> for \<open>i = 0, ..., n - 1\<close> are pairwise disjoint, their
  union is exactly \<open>[0, work)\<close> (they follow each other from 0 to \<open>work\<close> in the order of
  the worker ids), the size of each is the floor or the ceiling of \<open>work / n\<close>, which
  differ by at most one, and the first \<open>work mod n\<close> workers are the ones that receive the
  ceiling. The range is a function of \<open>(work, n, i)\<close> alone, so a repeated call yields
  the same range.
\<close>

theorem balance211_partition:
  assumes "1 \<le> n"
  shows "(\<forall>i<n. \<forall>j<n. i \<noteq> j \<longrightarrow>
            {fst (balance211 work n i)..<snd (balance211 work n i)}
            \<inter> {fst (balance211 work n j)..<snd (balance211 work n j)} = {})
       \<and> (\<Union>i<n. {fst (balance211 work n i)..<snd (balance211 work n i)}) = {0..<work}
       \<and> concat (map (\<lambda>i. [fst (balance211 work n i)..<snd (balance211 work n i)]) [0..<n])
           = [0..<work]
       \<and> (\<forall>i<n. fst (balance211 work n i) \<le> snd (balance211 work n i)
             \<and> snd (balance211 work n i) - fst (balance211 work n i)
               = (if i < work mod n then (work + n - 1) div n else work div n))
       \<and> work div n \<le> (work + n - 1) div n
       \<and> (work + n - 1) div n \<le> work div n + 1"
proof -
  have disjoint: "\<forall>i<n. \<forall>j<n. i \<noteq> j \<longrightarrow>
            {fst (balance211 work n i)..<snd (balance211 work n i)}
            \<inter> {fst (balance211 work n j)..<snd (balance211 work n j)} = {}"
    by (intro allI impI balance211_disjoint)
  have chain: "concat (map (\<lambda>i. [fst (balance211 work n i)..<snd (balance211 work n i)])
                 [0..<n]) = [0..<work]"
    by (rule balance211_ranges_concat [OF assms])
  have "set (concat (map (\<lambda>i. [fst (balance211 work n i)..<snd (balance211 work n i)])
          [0..<n])) = set [0..<work]"
    using chain by simp
  then have cover: "(\<Union>i<n. {fst (balance211 work n i)..<snd (balance211 work n i)})
                    = {0..<work}"
    by (simp add: lessThan_atLeast0)
  have sizes: "\<forall>i<n. fst (balance211 work n i) \<le> snd (balance211 work n i)
             \<and> snd (balance211 work n i) - fst (balance211 work n i)
               = (if i < work mod n then (work + n - 1) div n else work div n)"
    unfolding balance211_size div_up_eq [OF assms] by (auto simp add: balance211_le)
  have floor_ceil: "work div n \<le> (work + n - 1) div n
                    \<and> (work + n - 1) div n \<le> work div n + 1"
    unfolding div_up_eq [OF assms] by simp
  show ?thesis
    using disjoint cover chain sizes floor_ceil by (intro conjI) blast+
qed

theorem balance211_partition_witness:
  "balance211 10 3 0 = (0, 4) \<and> balance211 10 3 1 = (4, 7) \<and> balance211 10 3 2 = (7, 10)
   \<and> (1::nat) \<le> 3
   \<and> concat (map (\<lambda>i. [fst (balance211 10 3 i)..<snd (balance211 10 3 i)]) [0..<3])
       = [0..<10]
   \<and> {fst (balance211 10 3 0)..<snd (balance211 10 3 0)}
       \<inter> {fst (balance211 10 3 2)..<snd (balance211 10 3 2)} = {}"
proof -
  have h: "(1::nat) \<le> 3" by simp
  have v: "balance211 10 3 0 = (0, 4) \<and> balance211 10 3 1 = (4, 7)
           \<and> balance211 10 3 2 = (7, 10)"
    by (simp add: balance211_def Let_def)
  have d: "{fst (balance211 10 3 0)..<snd (balance211 10 3 0)}
       \<inter> {fst (balance211 10 3 2)..<snd (balance211 10 3 2)} = {}"
    using balance211_partition [OF h, of 10, THEN conjunct1, rule_format, of 0 2] by simp
  show ?thesis
    using h v d balance211_partition [OF h, of 10, THEN conjunct2, THEN conjunct2, THEN conjunct1]
    by blast
qed

section \<open>The coordinates for_nd visits\<close>

lemma fold_log: "fold (\<lambda>x log. log @ [g x]) xs acc = acc @ map g xs"
  by (induction xs arbitrary: acc) simp_all

lemma fold_log_id: "fold (\<lambda>x log. log @ [x]) xs acc = acc @ xs"
  using fold_log [of "\<lambda>x. x" xs acc] by simp

lemma for_nd1_visits_eq:
  "for_nd1_visits ithr nthr D0
   = [fst (balance211 D0 nthr ithr)..<snd (balance211 D0 nthr ithr)]"
  unfolding for_nd1_visits_def for_nd1_def for_nd1_loop_fold
  by (simp add: fold_log_id split: prod.split)

lemma prod_list_pos:
  fixes Xs :: "nat list"
  shows "\<forall>X \<in> set Xs. 0 < X \<Longrightarrow> 0 < prod_list Xs"
  by (induction Xs) simp_all

lemma foldl_size_t_mul:
  "a < 2 ^ 64 \<Longrightarrow> foldl size_t_mul a Ds = (a * prod_list Ds) mod 2 ^ 64"
proof (induction Ds arbitrary: a)
  case Nil
  then show ?case by simp
next
  case (Cons D Ds)
  have "foldl size_t_mul a (D # Ds) = foldl size_t_mul ((a * D) mod 2 ^ 64) Ds"
    by (simp add: size_t_mul_def)
  also have "\<dots> = ((a * D) mod 2 ^ 64 * prod_list Ds) mod 2 ^ 64"
    by (rule Cons.IH) simp
  also have "\<dots> = (a * prod_list (D # Ds)) mod 2 ^ 64"
    by (simp add: mod_mult_left_eq mult.assoc)
  finally show ?case .
qed

lemma work_amount_eq: "work_amount Ds = prod_list Ds mod 2 ^ 64"
  unfolding work_amount_def using foldl_size_t_mul [of 1 Ds] by simp

lemma nd_iterator_init_fst: "fst (nd_iterator_init i Xs) = i div prod_list Xs"
proof (induction Xs)
  case Nil
  then show ?case by simp
next
  case (Cons X Xs)
  then show ?case
    by (simp add: split_beta div_mult2_eq [symmetric] mult.commute)
qed

lemma nd_iterator_init_snd:
  "snd (nd_iterator_init i (X # Xs)) = (i div prod_list Xs) mod X # snd (nd_iterator_init i Xs)"
  using nd_iterator_init_fst [of i Xs] by (simp add: split_beta)

lemma nd_iterator_init_periodic:
  "snd (nd_iterator_init (k * prod_list Xs + j) Xs) = snd (nd_iterator_init j Xs)"
proof (induction Xs arbitrary: k)
  case Nil
  then show ?case by simp
next
  case (Cons X Xs)
  have tail: "snd (nd_iterator_init (k * prod_list (X # Xs) + j) Xs)
              = snd (nd_iterator_init j Xs)"
    using Cons.IH [of "k * X"] by (simp add: mult.assoc)
  have digit: "((k * prod_list (X # Xs) + j) div prod_list Xs) mod X
               = (j div prod_list Xs) mod X"
  proof (cases "prod_list Xs = 0")
    case True
    then show ?thesis by simp
  next
    case False
    have "(k * prod_list (X # Xs) + j) div prod_list Xs = k * X + j div prod_list Xs"
      using False by (simp add: mult.assoc [symmetric] add.commute)
    then show ?thesis by simp
  qed
  show ?case
    unfolding nd_iterator_init_snd using tail digit by simp
qed

lemma nd_iterator_step_init:
  assumes "\<forall>X \<in> set Xs. 0 < X"
  shows "nd_iterator_step (snd (nd_iterator_init i Xs)) Xs
         = (Suc i mod prod_list Xs = 0, snd (nd_iterator_init (Suc i) Xs))"
  using assms
proof (induction Xs)
  case Nil
  then show ?case by simp
next
  case (Cons X Xs)
  define P where "P = prod_list Xs"
  have P: "0 < P" and X: "0 < X"
    using Cons.prems prod_list_pos [of Xs] unfolding P_def by simp_all
  have IH: "nd_iterator_step (snd (nd_iterator_init i Xs)) Xs
            = (Suc i mod P = 0, snd (nd_iterator_init (Suc i) Xs))"
    unfolding P_def using Cons by simp
  have split_mod: "Suc i mod (P * X) = P * (Suc i div P mod X) + Suc i mod P"
    by (rule mod_mult2_eq)
  show ?case
  proof (cases "Suc i mod P = 0")
    case True
    then have div: "Suc i div P = Suc (i div P)"
      by (simp add: div_Suc)
    have carry: "(Suc i mod (X * P) = 0) = (Suc (i div P mod X) mod X = 0)"
      using split_mod True P div by (simp add: mult.commute mod_Suc_eq)
    show ?thesis
      unfolding nd_iterator_init_snd
      using True IH div carry
      by (simp add: P_def [symmetric] mod_Suc_eq Let_def)
  next
    case False
    then have div: "Suc i div P = i div P"
      by (simp add: div_Suc)
    have carry: "Suc i mod (X * P) \<noteq> 0"
      using split_mod False by (simp add: mult.commute)
    show ?thesis
      unfolding nd_iterator_init_snd
      using False IH div carry
      by (simp add: P_def [symmetric])
  qed
qed

lemma for_nd_loop_fold:
  assumes pos: "\<forall>X \<in> set Ds. 0 < X"
  shows "for_nd_loop iwork e (snd (nd_iterator_init iwork Ds)) Ds f s
         = fold f (map (\<lambda>i. snd (nd_iterator_init i Ds)) [iwork..<e]) s"
proof (induction "e - iwork" arbitrary: iwork s)
  case 0
  then show ?case by (subst for_nd_loop.simps) simp
next
  case (Suc k)
  then have lt: "iwork < e" and k: "k = e - Suc iwork" by simp_all
  have "for_nd_loop iwork e (snd (nd_iterator_init iwork Ds)) Ds f s
        = for_nd_loop (Suc iwork) e (snd (nd_iterator_init (Suc iwork) Ds)) Ds f
            (f (snd (nd_iterator_init iwork Ds)) s)"
    using lt by (subst for_nd_loop.simps) (simp add: nd_iterator_step_init [OF pos])
  also have "\<dots> = fold f (map (\<lambda>i. snd (nd_iterator_init i Ds)) [Suc iwork..<e])
                      (f (snd (nd_iterator_init iwork Ds)) s)"
    by (rule Suc.hyps(1) [OF k])
  also have "\<dots> = fold f (map (\<lambda>i. snd (nd_iterator_init i Ds)) [iwork..<e]) s"
    using lt by (simp add: upt_conv_Cons)
  finally show ?case .
qed

lemma for_nd_zero:
  assumes "prod_list Ds mod 2 ^ 64 = 0"
  shows "for_nd ithr nthr Ds f s = s"
  unfolding for_nd_def work_amount_eq using assms by simp

lemma for_nd_visits_eq:
  assumes small: "prod_list Ds < 2 ^ 64"
  shows "for_nd_visits ithr nthr Ds
         = map (\<lambda>i. snd (nd_iterator_init i Ds))
             [fst (balance211 (prod_list Ds) nthr ithr)
              ..<snd (balance211 (prod_list Ds) nthr ithr)]"
proof (cases "prod_list Ds = 0")
  case True
  then have "for_nd_visits ithr nthr Ds = []"
    unfolding for_nd_visits_def by (simp add: for_nd_zero)
  moreover have "balance211 0 nthr ithr = (0, 0)"
    by (simp add: balance211_def)
  ultimately show ?thesis using True by simp
next
  case False
  then have "0 \<notin> set Ds"
    by (simp add: prod_list_zero_iff)
  then have pos: "\<forall>X \<in> set Ds. 0 < X"
    by (metis neq0_conv)
  have wa: "work_amount Ds = prod_list Ds"
    unfolding work_amount_eq using small by simp
  show ?thesis
    unfolding for_nd_visits_def for_nd_def wa
    using False
    by (simp add: for_nd_loop_fold [OF pos] fold_log split: prod.split)
qed

lemma upt_blocks:
  "[0..<X * P] = concat (map (\<lambda>x. map (\<lambda>j. x * P + j) [0..<P]) [0..<X])"
proof (induction X)
  case 0
  then show ?case by simp
next
  case (Suc X)
  have "[0..<Suc X * P] = [0..<X * P] @ [X * P..<X * P + P]"
    using upt_add_eq_append [of 0 "X * P" P] by (simp add: add.commute)
  also have "[X * P..<X * P + P] = map (\<lambda>j. X * P + j) [0..<P]"
    using map_add_upt [of "X * P" P] by (simp add: add.commute)
  finally show ?case using Suc by simp
qed

lemma nd_iterator_init_product_lists:
  "map (\<lambda>i. snd (nd_iterator_init i Ds)) [0..<prod_list Ds]
   = product_lists (map (\<lambda>D. [0..<D]) Ds)"
proof (induction Ds)
  case Nil
  then show ?case by simp
next
  case (Cons X Xs)
  define P where "P = prod_list Xs"
  have block: "map (\<lambda>j. snd (nd_iterator_init (x * P + j) (X # Xs))) [0..<P]
               = map ((#) x) (product_lists (map (\<lambda>D. [0..<D]) Xs))" if "x < X" for x
  proof -
    have "map (\<lambda>j. snd (nd_iterator_init (x * P + j) (X # Xs))) [0..<P]
          = map (\<lambda>j. x # snd (nd_iterator_init j Xs)) [0..<P]"
    proof (rule map_cong [OF refl])
      fix j assume "j \<in> set [0..<P]"
      then have j: "j < P" by simp
      then have "(x * P + j) div P = x" by simp
      then have "(x * P + j) div P mod X = x" using that by simp
      then show "snd (nd_iterator_init (x * P + j) (X # Xs)) = x # snd (nd_iterator_init j Xs)"
        unfolding nd_iterator_init_snd P_def [symmetric]
        using nd_iterator_init_periodic [of x Xs j] by (simp add: P_def)
    qed
    also have "\<dots> = map ((#) x) (map (\<lambda>j. snd (nd_iterator_init j Xs)) [0..<P])"
      by simp
    finally show ?thesis using Cons.IH by (simp add: P_def)
  qed
  have "map (\<lambda>i. snd (nd_iterator_init i (X # Xs))) [0..<prod_list (X # Xs)]
        = concat (map (\<lambda>x. map (\<lambda>j. snd (nd_iterator_init (x * P + j) (X # Xs))) [0..<P])
            [0..<X])"
    unfolding prod_list.Cons P_def [symmetric] upt_blocks [of X P]
    by (simp add: map_concat comp_def)
  also have "\<dots> = concat (map (\<lambda>x. map ((#) x) (product_lists (map (\<lambda>D. [0..<D]) Xs)))
                        [0..<X])"
    using block by (intro arg_cong [where f = concat] map_cong) simp_all
  finally show ?case by simp
qed

lemma for_nd_visits_concat:
  assumes team: "1 \<le> nthr" and small: "prod_list Ds < 2 ^ 64"
  shows "concat (map (\<lambda>ithr. for_nd_visits ithr nthr Ds) [0..<nthr])
         = product_lists (map (\<lambda>D. [0..<D]) Ds)"
proof -
  have "concat (map (\<lambda>ithr. for_nd_visits ithr nthr Ds) [0..<nthr])
        = map (\<lambda>i. snd (nd_iterator_init i Ds))
            (concat (map (\<lambda>ithr. [fst (balance211 (prod_list Ds) nthr ithr)
                                   ..<snd (balance211 (prod_list Ds) nthr ithr)])
               [0..<nthr]))"
    unfolding for_nd_visits_eq [OF small] by (simp add: map_concat comp_def)
  also have "\<dots> = map (\<lambda>i. snd (nd_iterator_init i Ds)) [0..<prod_list Ds]"
    unfolding balance211_ranges_concat [OF team] ..
  finally show ?thesis
    unfolding nd_iterator_init_product_lists .
qed

lemma for_nd1_visits_concat:
  assumes team: "1 \<le> nthr"
  shows "concat (map (\<lambda>ithr. for_nd1_visits ithr nthr D0) [0..<nthr]) = [0..<D0]"
  unfolding for_nd1_visits_eq by (rule balance211_ranges_concat [OF team])

lemma set_product_lists_upt:
  "set (product_lists (map (\<lambda>D. [0..<D]) Ds)) = {ds. list_all2 (\<lambda>d D. d < D) ds Ds}"
  unfolding product_lists_set by (simp add: list_all2_map2)

lemma for_nd_visits_slice:
  assumes team: "1 \<le> nthr" and small: "prod_list Ds < 2 ^ 64" and worker: "ithr < nthr"
  shows "for_nd_visits ithr nthr Ds
         = take (snd (balance211 (prod_list Ds) nthr ithr)
                 - fst (balance211 (prod_list Ds) nthr ithr))
             (drop (fst (balance211 (prod_list Ds) nthr ithr))
                (product_lists (map (\<lambda>D. [0..<D]) Ds)))"
proof -
  define a where "a = fst (balance211 (prod_list Ds) nthr ithr)"
  define b where "b = snd (balance211 (prod_list Ds) nthr ithr)"
  have ab: "a \<le> b" unfolding a_def b_def by (rule balance211_le)
  have "b = fst (balance211 (prod_list Ds) nthr (Suc ithr))"
    unfolding b_def by (rule balance211_snd)
  also have "\<dots> \<le> fst (balance211 (prod_list Ds) nthr nthr)"
    using worker by (intro balance211_start_mono) simp
  also have "\<dots> = prod_list Ds"
    by (rule balance211_start_team [OF team])
  finally have b: "b \<le> prod_list Ds" .
  have "take (b - a) (drop a [0..<prod_list Ds]) = [a..<b]"
    using ab b by simp
  then have "take (b - a) (drop a (map (\<lambda>i. snd (nd_iterator_init i Ds)) [0..<prod_list Ds]))
             = map (\<lambda>i. snd (nd_iterator_init i Ds)) [a..<b]"
    by (simp add: drop_map take_map)
  then show ?thesis
    unfolding for_nd_visits_eq [OF small] nd_iterator_init_product_lists
      a_def [symmetric] b_def [symmetric] by simp
qed

lemma for_nd1_zero: "for_nd1 ithr nthr 0 f s = s"
  unfolding for_nd1_def for_nd1_loop_fold by (simp add: balance211_def)

text \<open>
  C8 (amended). For a team of \<open>nthr \<ge> 1\<close> workers and extents whose product is below
  \<open>2 ^ 64\<close>, so that \<^verbatim>\<open>work_amount\<close> holds it: the coordinates at which the workers
  \<open>ithr = 0, ..., nthr - 1\<close> call \<open>f\<close>, put one after the other, are the Cartesian
  product of the extents in row-major order (the innermost dimension varies fastest), so
  every coordinate is visited exactly once. One worker visits the slice of that
  enumeration that its range of \<^verbatim>\<open>balance211\<close> selects, starting at the mixed-radix
  decomposition of the start of its range. The same holds for the overload with one
  extent, which visits the indices of its range in increasing order. If an extent is
  zero, \<open>f\<close> is never called and the call changes nothing, also in the overload with
  one extent, which has no test for it.
\<close>

theorem for_nd_visits_cartesian:
  assumes team: "1 \<le> nthr" and small: "prod_list Ds < 2 ^ 64"
  shows "concat (map (\<lambda>ithr. for_nd_visits ithr nthr Ds) [0..<nthr])
           = product_lists (map (\<lambda>D. [0..<D]) Ds)
       \<and> mset (concat (map (\<lambda>ithr. for_nd_visits ithr nthr Ds) [0..<nthr]))
           = mset (product_lists (map (\<lambda>D. [0..<D]) Ds))
       \<and> distinct (concat (map (\<lambda>ithr. for_nd_visits ithr nthr Ds) [0..<nthr]))
       \<and> set (product_lists (map (\<lambda>D. [0..<D]) Ds))
           = {ds. list_all2 (\<lambda>d D. d < D) ds Ds}
       \<and> concat (map (\<lambda>ithr. for_nd1_visits ithr nthr D0) [0..<nthr]) = [0..<D0]
       \<and> for_nd_visits ithr nthr Ds
           = map (\<lambda>i. snd (nd_iterator_init i Ds))
               [fst (balance211 (prod_list Ds) nthr ithr)
                ..<snd (balance211 (prod_list Ds) nthr ithr)]
       \<and> (ithr < nthr \<longrightarrow>
            for_nd_visits ithr nthr Ds
            = take (snd (balance211 (prod_list Ds) nthr ithr)
                    - fst (balance211 (prod_list Ds) nthr ithr))
                (drop (fst (balance211 (prod_list Ds) nthr ithr))
                   (product_lists (map (\<lambda>D. [0..<D]) Ds))))
       \<and> for_nd1_visits ithr nthr D0
           = [fst (balance211 D0 nthr ithr)..<snd (balance211 D0 nthr ithr)]
       \<and> (0 \<in> set Ds \<longrightarrow> for_nd ithr nthr Ds f st = st)
       \<and> for_nd1 ithr nthr 0 g st1 = st1"
proof -
  have all: "concat (map (\<lambda>ithr. for_nd_visits ithr nthr Ds) [0..<nthr])
           = product_lists (map (\<lambda>D. [0..<D]) Ds)"
    by (rule for_nd_visits_concat [OF team small])
  have once: "distinct (concat (map (\<lambda>ithr. for_nd_visits ithr nthr Ds) [0..<nthr]))"
    unfolding all by (rule distinct_product_lists) auto
  have zero: "0 \<in> set Ds \<longrightarrow> for_nd ithr nthr Ds f st = st"
  proof
    assume "0 \<in> set Ds"
    then have "prod_list Ds = 0" by (simp add: prod_list_zero_iff)
    then have "prod_list Ds mod 2 ^ 64 = 0" by simp
    then show "for_nd ithr nthr Ds f st = st" by (rule for_nd_zero)
  qed
  have slice: "ithr < nthr \<longrightarrow>
            for_nd_visits ithr nthr Ds
            = take (snd (balance211 (prod_list Ds) nthr ithr)
                    - fst (balance211 (prod_list Ds) nthr ithr))
                (drop (fst (balance211 (prod_list Ds) nthr ithr))
                   (product_lists (map (\<lambda>D. [0..<D]) Ds)))"
    using for_nd_visits_slice [OF team small] by blast
  show ?thesis
    using all once zero slice set_product_lists_upt [of Ds]
      for_nd1_visits_concat [OF team, of D0] for_nd_visits_eq [OF small, of ithr nthr]
      for_nd1_visits_eq [of ithr nthr D0] for_nd1_zero [of ithr nthr g st1]
    by (intro conjI) simp_all
qed

theorem for_nd_visits_cartesian_witness:
  "(1::nat) \<le> 2 \<and> prod_list [2, 3 :: nat] < 2 ^ 64
   \<and> concat (map (\<lambda>ithr. for_nd_visits ithr 2 [2, 3]) [0..<2])
       = [[0, 0], [0, 1], [0, 2], [1, 0], [1, 1], [1, 2]]
   \<and> for_nd_visits 1 2 [2, 3] = [[1, 0], [1, 1], [1, 2]]
   \<and> concat (map (\<lambda>ithr. for_nd1_visits ithr 2 5) [0..<2]) = [0, 1, 2, 3, 4]"
proof -
  have h1: "(1::nat) \<le> 2" by simp
  have h2: "prod_list [2, 3 :: nat] < 2 ^ 64" by simp
  have pl: "product_lists (map (\<lambda>D. [0..<D]) [2, 3 :: nat])
            = [[0, 0], [0, 1], [0, 2], [1, 0], [1, 1], [1, 2]]"
    by (simp add: upt_rec)
  have u: "[0..<5] = [0, 1, 2, 3, 4 :: nat]"
    by (simp add: upt_rec)
  note t = for_nd_visits_cartesian [OF h1 h2, where ?D0.0 = 5 and ithr = 1]
  have k1: "concat (map (\<lambda>ithr. for_nd_visits ithr 2 [2, 3]) [0..<2])
            = [[0, 0], [0, 1], [0, 2], [1, 0], [1, 1], [1, 2]]"
    using t [THEN conjunct1] unfolding pl .
  have k5: "concat (map (\<lambda>ithr. for_nd1_visits ithr 2 5) [0..<2]) = [0, 1, 2, 3, 4]"
    using t [THEN conjunct2, THEN conjunct2, THEN conjunct2, THEN conjunct2, THEN conjunct1]
    unfolding u .
  have k6: "for_nd_visits 1 2 [2, 3] = [[1, 0], [1, 1], [1, 2]]"
    using t [THEN conjunct2, THEN conjunct2, THEN conjunct2, THEN conjunct2, THEN conjunct2,
      THEN conjunct1]
    by (simp add: balance211_def upt_rec)
  show ?thesis
    using h1 h2 k1 k5 k6 by blast
qed

theorem for_nd_size_t_wrap_counterexample:
  "for_nd_visits 0 1 [65536, 65536, 65536, 65536] = []
   \<and> [0, 0, 0, 0] \<in> set (product_lists (map (\<lambda>D. [0..<D]) [65536, 65536, 65536, 65536]))"
proof -
  have "work_amount [65536, 65536, 65536, 65536] = 0"
    by (simp add: work_amount_def size_t_mul_def)
  then have a: "for_nd_visits 0 1 [65536, 65536, 65536, 65536] = []"
    by (simp add: for_nd_visits_def for_nd_def)
  have b: "[0, 0, 0, 0] \<in> set (product_lists (map (\<lambda>D. [0..<D]) [65536, 65536, 65536, 65536]))"
    unfolding set_product_lists_upt by simp
  show ?thesis using a b by blast
qed

end
